theory Spec2Isabelle
  imports Complex_Main "HOL-Library.AList" "HOL-Library.Sublist"
begin

section \<open>JSON values and the Python operations the receiver applies to them\<close>

text \<open>
  The receiver (\<^verbatim>\<open>metrics_api.py\<close>) works on whatever \<^verbatim>\<open>request.get_json()\<close> hands it:
  a Python value built from \<^verbatim>\<open>None\<close>, booleans, numbers, strings, lists and dicts.
  A number is kept as its exact rational value (a finite int or float; NaN and the
  infinities are left out). A dict is an association list in insertion order; lookups
  go through \<open>map_of\<close> and stores through \<open>AList.update\<close>, which overwrites in place
  or appends, as a Python dict does.
\<close>

datatype json =
    JNull
  | JBool bool
  | JNum rat
  | JStr string
  | JArr "json list"
  | JObj "(string \<times> json) list"

datatype py_error = TypeError | AttributeError | KeyError | ValueError

text \<open>Truth value of a Python object, as \<^verbatim>\<open>not data\<close> tests it.\<close>

fun truthy :: "json \<Rightarrow> bool" where
  "truthy JNull = False"
| "truthy (JBool b) = b"
| "truthy (JNum q) = (q \<noteq> 0)"
| "truthy (JStr s) = (s \<noteq> [])"
| "truthy (JArr xs) = (xs \<noteq> [])"
| "truthy (JObj kvs) = (kvs \<noteq> [])"

text \<open>
  \<^verbatim>\<open>k in c\<close> for a string \<open>k\<close>: key membership on a dict, element membership on a
  list, substring test on a string, \<^verbatim>\<open>TypeError\<close> on anything else.
\<close>

fun py_contains :: "string \<Rightarrow> json \<Rightarrow> py_error + bool" where
  "py_contains k (JObj kvs) = Inr (k \<in> set (map fst kvs))"
| "py_contains k (JArr xs) = Inr (JStr k \<in> set xs)"
| "py_contains k (JStr s) = Inr (sublist k s)"
| "py_contains k _ = Inl TypeError"

text \<open>\<^verbatim>\<open>c[k]\<close> for a string \<open>k\<close>: only a dict can be indexed by a string.\<close>

fun py_getitem :: "json \<Rightarrow> string \<Rightarrow> py_error + json" where
  "py_getitem (JObj kvs) k = (case map_of kvs k of None \<Rightarrow> Inl KeyError | Some v \<Rightarrow> Inr v)"
| "py_getitem _ k = Inl TypeError"

text \<open>
  \<^verbatim>\<open>c[k] = v\<close> for a string \<open>k\<close>: only a dict takes it; the result is the items of
  the dict after the assignment.
\<close>

type_synonym jdict = "(string \<times> json) list"

fun py_setitem :: "json \<Rightarrow> string \<Rightarrow> json \<Rightarrow> py_error + jdict" where
  "py_setitem (JObj kvs) k v = Inr (AList.update k v kvs)"
| "py_setitem _ k v = Inl TypeError"

text \<open>\<^verbatim>\<open>d.get(k, default)\<close> on a dict, and on any value: a method of dicts only.\<close>

definition dict_get :: "jdict \<Rightarrow> string \<Rightarrow> json \<Rightarrow> json" where
  "dict_get kvs k dflt = (case map_of kvs k of None \<Rightarrow> dflt | Some v \<Rightarrow> v)"

fun py_get :: "json \<Rightarrow> string \<Rightarrow> json \<Rightarrow> py_error + json" where
  "py_get (JObj kvs) k dflt = Inr (dict_get kvs k dflt)"
| "py_get _ k dflt = Inl AttributeError"

text \<open>
  Keys of the store. A dict key must be hashable (lists and dicts are not), and keys
  that compare equal are one key: \<^verbatim>\<open>True == 1 == 1.0\<close>.
\<close>

datatype key = KNone | KNum rat | KStr string

fun hash_key :: "json \<Rightarrow> py_error + key" where
  "hash_key JNull = Inr KNone"
| "hash_key (JBool b) = Inr (KNum (if b then 1 else 0))"
| "hash_key (JNum q) = Inr (KNum q)"
| "hash_key (JStr s) = Inr (KStr s)"
| "hash_key (JArr xs) = Inl TypeError"
| "hash_key (JObj kvs) = Inl TypeError"

text \<open>
  \<^verbatim>\<open>_metrics_store\<close>: device key to the last payload stored for it. Only a dict
  reaches the store (the payload has been indexed by \<^verbatim>\<open>'device_id'\<close> before), so the
  values are dicts.
\<close>

type_synonym store = "(key \<times> jdict) list"

section \<open>Clock and timestamps\<close>

text \<open>
  A \<^verbatim>\<open>datetime\<close> object without its zone. \<^verbatim>\<open>datetime.utcnow()\<close> returns one whose
  fields are in range (\<open>valid_datetime\<close>).
\<close>

record datetime =
  year :: nat
  month :: nat
  day :: nat
  hour :: nat
  minute :: nat
  second :: nat
  microsecond :: nat

definition is_leap :: "nat \<Rightarrow> bool" where
  "is_leap y = (y mod 4 = 0 \<and> (y mod 100 \<noteq> 0 \<or> y mod 400 = 0))"

definition days_in_month :: "nat \<Rightarrow> nat \<Rightarrow> nat" where
  "days_in_month y m =
     (if m = 2 then (if is_leap y then 29 else 28)
      else if m = 4 \<or> m = 6 \<or> m = 9 \<or> m = 11 then 30 else 31)"

definition valid_datetime :: "datetime \<Rightarrow> bool" where
  "valid_datetime t =
     (1 \<le> year t \<and> year t \<le> 9999 \<and> 1 \<le> month t \<and> month t \<le> 12 \<and>
      1 \<le> day t \<and> day t \<le> days_in_month (year t) (month t) \<and>
      hour t < 24 \<and> minute t < 60 \<and> second t < 60 \<and> microsecond t < 1000000)"

text \<open>Days before 1 January of year \<open>y\<close>, and before the first of month \<open>m\<close>.\<close>

definition days_before_year :: "nat \<Rightarrow> int" where
  "days_before_year y =
     (let p = int y - 1 in p * 365 + p div 4 - p div 100 + p div 400)"

definition days_before_month :: "nat \<Rightarrow> nat \<Rightarrow> int" where
  "days_before_month y m =
     int ([0, 0, 31, 59, 90, 120, 151, 181, 212, 243, 273, 304, 334] ! (if m \<le> 12 then m else 0))
       + (if m > 2 \<and> is_leap y then 1 else 0)"

definition ymd2ord :: "nat \<Rightarrow> nat \<Rightarrow> nat \<Rightarrow> int" where
  "ymd2ord y m d = days_before_year y + days_before_month y m + int d"

text \<open>Microseconds since the start of day 0 of the proleptic calendar.\<close>

definition to_us :: "datetime \<Rightarrow> int" where
  "to_us t =
     ((ymd2ord (year t) (month t) (day t) * 86400
        + int (hour t) * 3600 + int (minute t) * 60 + int (second t)) * 1000000
      + int (microsecond t))"

text \<open>
  One reading of the system clock: the UTC wall time, and the local zone's offset from
  UTC in microseconds (what \<^verbatim>\<open>datetime.now(None)\<close> adds to it).
\<close>

record reading =
  utcnow :: datetime
  utcoffset :: int

subsection \<open>\<^verbatim>\<open>isoformat\<close>\<close>

definition digit_char :: "nat \<Rightarrow> char" where
  "digit_char n = ''0123456789'' ! (n mod 10)"

definition pad2 :: "nat \<Rightarrow> string" where
  "pad2 n = [digit_char (n div 10), digit_char n]"

definition pad4 :: "nat \<Rightarrow> string" where
  "pad4 n = [digit_char (n div 1000), digit_char (n div 100), digit_char (n div 10), digit_char n]"

definition pad6 :: "nat \<Rightarrow> string" where
  "pad6 n = [digit_char (n div 100000), digit_char (n div 10000), digit_char (n div 1000),
             digit_char (n div 100), digit_char (n div 10), digit_char n]"

text \<open>
  \<^verbatim>\<open>datetime.isoformat()\<close> of a zone-less value:
  \<^verbatim>\<open>YYYY-MM-DDTHH:MM:SS\<close>, followed by \<^verbatim>\<open>.ffffff\<close> unless the microsecond is zero.
\<close>

definition isoformat :: "datetime \<Rightarrow> string" where
  "isoformat t =
     pad4 (year t) @ ''-'' @ pad2 (month t) @ ''-'' @ pad2 (day t) @ ''T'' @
     pad2 (hour t) @ '':'' @ pad2 (minute t) @ '':'' @ pad2 (second t) @
     (if microsecond t = 0 then [] else ''.'' @ pad6 (microsecond t))"

subsection \<open>\<^verbatim>\<open>fromisoformat\<close>\<close>

definition digit_val :: "char \<Rightarrow> nat option" where
  "digit_val c =
     (let n = of_char c :: nat in if 48 \<le> n \<and> n \<le> 57 then Some (n - 48) else None)"

text \<open>A run of decimal digits, and nothing else, as a number.\<close>

fun digits_val :: "nat \<Rightarrow> string \<Rightarrow> nat option" where
  "digits_val acc [] = Some acc"
| "digits_val acc (c # cs) =
     (case digit_val c of None \<Rightarrow> None | Some d \<Rightarrow> digits_val (acc * 10 + d) cs)"

definition parse_int :: "string \<Rightarrow> nat option" where
  "parse_int s = (if s = [] then None else digits_val 0 s)"

text \<open>\<^verbatim>\<open>YYYY-MM-DD\<close>, on a string of exactly ten characters.\<close>

definition parse_isoformat_date :: "string \<Rightarrow> (nat \<times> nat \<times> nat) option" where
  "parse_isoformat_date s =
     (if length s \<noteq> 10 \<or> s ! 4 \<noteq> CHR ''-'' \<or> s ! 7 \<noteq> CHR ''-'' then None
      else case (parse_int (take 4 s), parse_int (take 2 (drop 5 s)), parse_int (drop 8 s)) of
             (Some y, Some m, Some d) \<Rightarrow> Some (y, m, d)
           | _ \<Rightarrow> None)"

text \<open>
  \<^verbatim>\<open>HH[:MM[:SS[.fff[fff]]]]\<close>: hours, then minutes and seconds each after a colon, then
  a fraction of three or six digits after a dot.
\<close>

definition parse_fraction :: "string \<Rightarrow> nat option" where
  "parse_fraction s =
     (if s = [] then Some 0
      else if hd s \<noteq> CHR ''.'' then None
      else if length (tl s) = 6 then parse_int (tl s)
      else if length (tl s) = 3 then map_option (\<lambda>n. n * 1000) (parse_int (tl s))
      else None)"

definition parse_hh_mm_ss_ff :: "string \<Rightarrow> (nat \<times> nat \<times> nat \<times> nat) option" where
  "parse_hh_mm_ss_ff s =
     (case parse_int (take 2 s) of None \<Rightarrow> None | Some hh \<Rightarrow>
      if length s < 2 then None
      else if length s = 2 then Some (hh, 0, 0, 0)
      else if s ! 2 \<noteq> CHR '':'' \<or> length s < 5 then None
      else case parse_int (take 2 (drop 3 s)) of None \<Rightarrow> None | Some mm \<Rightarrow>
      if length s = 5 then Some (hh, mm, 0, 0)
      else if s ! 5 \<noteq> CHR '':'' \<or> length s < 8 then None
      else case parse_int (take 2 (drop 6 s)) of None \<Rightarrow> None | Some ss \<Rightarrow>
      (case parse_fraction (drop 8 s) of None \<Rightarrow> None | Some ff \<Rightarrow> Some (hh, mm, ss, ff)))"

text \<open>
  The zone suffix starts at the first \<^verbatim>\<open>-\<close> of the time string or, when it has none,
  at its first \<^verbatim>\<open>+\<close>.
\<close>

fun find_char :: "char \<Rightarrow> string \<Rightarrow> nat option" where
  "find_char c [] = None"
| "find_char c (x # xs) = (if x = c then Some 0 else map_option Suc (find_char c xs))"

definition tz_pos :: "string \<Rightarrow> nat option" where
  "tz_pos s = (case find_char CHR ''-'' s of Some i \<Rightarrow> Some i | None \<Rightarrow> find_char CHR ''+'' s)"

text \<open>
  The zone offset in microseconds: \<^verbatim>\<open>HH:MM\<close>, \<^verbatim>\<open>HH:MM:SS\<close> or \<^verbatim>\<open>HH:MM:SS.ffffff\<close>,
  strictly less than a day in size.
\<close>

definition parse_tz :: "bool \<Rightarrow> string \<Rightarrow> int option" where
  "parse_tz neg s =
     (if length s \<noteq> 5 \<and> length s \<noteq> 8 \<and> length s \<noteq> 15 then None
      else case parse_hh_mm_ss_ff s of None \<Rightarrow> None
        | Some (hh, mm, ss, ff) \<Rightarrow>
            (let off = (int hh * 3600 + int mm * 60 + int ss) * 1000000 + int ff
             in if off \<ge> 86400 * 1000000 then None
                else Some (if neg then - off else off)))"

definition parse_isoformat_time :: "string \<Rightarrow> ((nat \<times> nat \<times> nat \<times> nat) \<times> int option) option" where
  "parse_isoformat_time s =
     (case tz_pos s of
        None \<Rightarrow> map_option (\<lambda>c. (c, None)) (parse_hh_mm_ss_ff s)
      | Some i \<Rightarrow>
          (case parse_hh_mm_ss_ff (take i s) of None \<Rightarrow> None
           | Some c \<Rightarrow>
               (case parse_tz (s ! i = CHR ''-'') (drop (Suc i) s) of None \<Rightarrow> None
                | Some off \<Rightarrow> Some (c, Some off))))"

text \<open>
  \<^verbatim>\<open>datetime.fromisoformat\<close>, for the grammar of Python 3.7 to 3.10:
  \<^verbatim>\<open>YYYY-MM-DD[*HH[:MM[:SS[.fff[fff]]]][+HH:MM[:SS[.ffffff]]]]\<close>, where \<^verbatim>\<open>*\<close> is any one
  character; a string longer than the date must have a time after the separator.
  The result is the wall time and the zone offset (\<open>None\<close> for a string without a
  zone); \<open>None\<close> stands for \<^verbatim>\<open>ValueError\<close>, also raised for fields out of range.
  Later versions of Python accept more strings (other date forms, fractions of any
  length, a literal \<^verbatim>\<open>Z\<close>). The stamps that \<open>ingest_metrics\<close> writes have the one form
  \<^verbatim>\<open>YYYY-MM-DDTHH:MM:SS[.ffffff]Z\<close>, which every version from 3.7 on parses to the same
  value; only a \<^verbatim>\<open>received_at\<close> that the receiver did not write can fall between the
  grammars.
\<close>

definition fromisoformat :: "string \<Rightarrow> (datetime \<times> int option) option" where
  "fromisoformat s =
     (case parse_isoformat_date (take 10 s) of None \<Rightarrow> None
      | Some (y, m, d) \<Rightarrow>
          (case (if length s \<le> 10 then Some ((0, 0, 0, 0), None)
                 else parse_isoformat_time (drop 11 s)) of
             None \<Rightarrow> None
           | Some ((hh, mm, ss, ff), tz) \<Rightarrow>
               (let t = \<lparr>year = y, month = m, day = d, hour = hh, minute = mm,
                         second = ss, microsecond = ff\<rparr>
                in if valid_datetime t then Some (t, tz) else None)))"

text \<open>\<^verbatim>\<open>s.replace('Z', '+00:00')\<close>: every \<^verbatim>\<open>Z\<close> of the string is replaced.\<close>

definition replace_Z :: "string \<Rightarrow> string" where
  "replace_Z s = concat (map (\<lambda>c. if c = CHR ''Z'' then ''+00:00'' else [c]) s)"

section \<open>The receiver\<close>

definition MAX_AGE_SECONDS :: rat where
  "MAX_AGE_SECONDS = 60"

subsection \<open>\<^verbatim>\<open>ingest_metrics\<close>\<close>

text \<open>The three responses of the endpoint: 200 with the receipt, 400, and 500.\<close>

datatype ingest_response =
    Ingest_ok json string
  | Ingest_invalid
  | Ingest_error py_error

text \<open>
  The argument of the log line,
  \<^verbatim>\<open>data.get('metrics', {}).get('cpu', {}).get('usage_percent', 'N/A')\<close>.
\<close>

definition log_cpu :: "jdict \<Rightarrow> py_error + json" where
  "log_cpu data =
     (case py_get (dict_get data ''metrics'' (JObj [])) ''cpu'' (JObj []) of
        Inl e \<Rightarrow> Inl e
      | Inr c \<Rightarrow> py_get c ''usage_percent'' (JStr ''N/A''))"

text \<open>
  \<open>ingest_metrics now data st\<close>: the handler on the parsed body \<open>data\<close>, with \<open>now\<close>
  the value of \<^verbatim>\<open>datetime.utcnow()\<close>; it returns the response and the store it leaves.
  Every exception is caught by the handler and answered with 500.
\<close>

definition ingest_metrics :: "datetime \<Rightarrow> json \<Rightarrow> store \<Rightarrow> ingest_response \<times> store" where
  "ingest_metrics now data st =
     (if \<not> truthy data then (Ingest_invalid, st)
      else case py_contains ''device_id'' data of
        Inl e \<Rightarrow> (Ingest_error e, st)
      | Inr False \<Rightarrow> (Ingest_invalid, st)
      | Inr True \<Rightarrow>
          (case py_getitem data ''device_id'' of
             Inl e \<Rightarrow> (Ingest_error e, st)
           | Inr device_id \<Rightarrow>
               (let received_at = isoformat now @ ''Z'' in
                case py_setitem data ''received_at'' (JStr received_at) of
                  Inl e \<Rightarrow> (Ingest_error e, st)
                | Inr data' \<Rightarrow>
                    (case hash_key device_id of
                       Inl e \<Rightarrow> (Ingest_error e, st)
                     | Inr k \<Rightarrow>
                         (let st' = AList.update k data' st in
                          case log_cpu data' of
                            Inl e \<Rightarrow> (Ingest_error e, st')
                          | Inr _ \<Rightarrow> (Ingest_ok device_id received_at, st'))))))"

subsection \<open>Age of an entry\<close>

text \<open>
  The body of the \<^verbatim>\<open>try\<close> block shared by the three read handlers. \<open>received_at_of\<close>
  is its first line, \<open>None\<close> when it raises (key missing, value not a string, string
  not parsed). \<open>age_seconds\<close> is its second line, \<^verbatim>\<open>datetime.now(tz) - received_at\<close> in
  seconds: between instants when the string carries a zone, between wall times of the
  local zone when it does not. The age is the exact quotient; Python rounds it to the
  nearest float, which does not change how it compares with 60.
\<close>

definition received_at_of :: "jdict \<Rightarrow> (datetime \<times> int option) option" where
  "received_at_of data =
     (case map_of data ''received_at'' of
        Some (JStr s) \<Rightarrow> fromisoformat (replace_Z s)
      | _ \<Rightarrow> None)"

definition age_us :: "reading \<Rightarrow> datetime \<times> int option \<Rightarrow> int" where
  "age_us rd p =
     (case snd p of
        Some off \<Rightarrow> to_us (utcnow rd) - (to_us (fst p) - off)
      | None \<Rightarrow> to_us (utcnow rd) + utcoffset rd - to_us (fst p))"

definition age_seconds :: "reading \<Rightarrow> jdict \<Rightarrow> rat option" where
  "age_seconds rd data =
     map_option (\<lambda>p. of_int (age_us rd p) / 1000000) (received_at_of data)"

subsection \<open>\<^verbatim>\<open>list_devices\<close>\<close>

record device_row =
  device_id :: key
  hostname :: json
  device_type :: json
  overall_status :: json
  last_seen :: json
  is_stale :: bool

definition list_is_stale :: "reading \<Rightarrow> jdict \<Rightarrow> bool" where
  "list_is_stale rd data =
     (case age_seconds rd data of Some a \<Rightarrow> a > MAX_AGE_SECONDS | None \<Rightarrow> True)"

definition list_row :: "reading \<Rightarrow> key \<Rightarrow> jdict \<Rightarrow> device_row" where
  "list_row rd k data =
     (let stale = list_is_stale rd data in
      \<lparr>device_id = k,
       hostname = dict_get data ''hostname'' (JStr ''Unknown''),
       device_type = dict_get data ''device_type'' (JStr ''unknown''),
       overall_status =
         (if stale then JStr ''offline'' else dict_get data ''overall_status'' (JStr ''unknown'')),
       last_seen = dict_get data ''received_at'' JNull,
       is_stale = stale\<rparr>)"

text \<open>
  The loop over \<^verbatim>\<open>_metrics_store.items()\<close>; \<open>clk i\<close> is the clock as the \<open>i\<close>-th
  iteration reads it.
\<close>

fun list_loop :: "(nat \<Rightarrow> reading) \<Rightarrow> nat \<Rightarrow> store \<Rightarrow> device_row list \<Rightarrow> device_row list" where
  "list_loop clk i [] devices = devices"
| "list_loop clk i ((k, data) # rest) devices =
     list_loop clk (Suc i) rest (devices @ [list_row (clk i) k data])"

definition list_devices :: "(nat \<Rightarrow> reading) \<Rightarrow> store \<Rightarrow> device_row list" where
  "list_devices clk st = list_loop clk 0 st []"

subsection \<open>\<^verbatim>\<open>get_device_metrics\<close>\<close>

datatype detail_response =
    Detail_ok jdict
  | Detail_not_found

definition get_device_metrics :: "reading \<Rightarrow> string \<Rightarrow> store \<Rightarrow> detail_response" where
  "get_device_metrics rd dev st =
     (case map_of st (KStr dev) of
        None \<Rightarrow> Detail_not_found
      | Some data \<Rightarrow>
          Detail_ok
            (case age_seconds rd data of
               Some a \<Rightarrow>
                 AList.update ''age_seconds'' (JNum a)
                   (AList.update ''is_stale'' (JBool (a > MAX_AGE_SECONDS)) data)
             | None \<Rightarrow> AList.update ''is_stale'' (JBool True) data))"

subsection \<open>\<^verbatim>\<open>get_latest_metrics\<close>\<close>

record summary =
  total_devices :: nat
  online :: nat
  offline :: nat
  healthy :: nat
  warning :: nat
  critical :: nat

text \<open>
  One element of \<^verbatim>\<open>devices\<close> in the dashboard response. The age is kept exact: the
  rounding to one decimal (\<^verbatim>\<open>round(age_seconds, 1)\<close>) is a matter of display.
\<close>

record dashboard_device =
  dev_device_id :: key
  dev_hostname :: json
  dev_platform :: json
  dev_is_online :: bool
  dev_overall_status :: json
  dev_metrics :: json
  dev_last_seen :: json
  dev_age_seconds :: "rat option"

text \<open>
  The \<^verbatim>\<open>detail\<close> strings, kept as the values the f-strings format
  (\<^verbatim>\<open>"N connections"\<close>, \<^verbatim>\<open>"x.y% CPU"\<close>, \<^verbatim>\<open>"x.y% used"\<close>, \<^verbatim>\<open>"n/m online"\<close>).
\<close>

datatype detail =
    No_data
  | Connections json
  | Percent_cpu rat
  | Percent_used rat
  | Fixed_text string
  | Online_of nat nat

record subsystem =
  status :: string
  detail :: detail

record system_status =
  network :: subsystem
  compute :: subsystem
  storage :: subsystem
  cooling :: subsystem
  security :: subsystem
  power_sys :: subsystem

record dashboard =
  resp_status :: string
  resp_timestamp :: "string option"
  devices :: "dashboard_device list"
  summary :: summary
  system_status :: system_status

text \<open>The local variables the loop updates.\<close>

record loop_state =
  acc_devices :: "dashboard_device list"
  acc_summary :: summary
  cpu_statuses :: "json list"
  memory_statuses :: "json list"
  disk_statuses :: "json list"
  network_statuses :: "json list"

text \<open>
  \<^verbatim>\<open>if name in metrics: statuses.append(metrics[name].get('status', 'unknown'))\<close>
\<close>

definition collect_status :: "string \<Rightarrow> json \<Rightarrow> json list \<Rightarrow> py_error + json list" where
  "collect_status name metrics statuses =
     (case py_contains name metrics of
        Inl e \<Rightarrow> Inl e
      | Inr False \<Rightarrow> Inr statuses
      | Inr True \<Rightarrow>
          (case py_getitem metrics name of
             Inl e \<Rightarrow> Inl e
           | Inr r \<Rightarrow>
               (case py_get r ''status'' (JStr ''unknown'') of
                  Inl e \<Rightarrow> Inl e
                | Inr s \<Rightarrow> Inr (statuses @ [s]))))"

text \<open>The \<^verbatim>\<open>try\<close> block of the loop: \<^verbatim>\<open>is_online\<close> and \<^verbatim>\<open>age_seconds\<close>.\<close>

definition latest_age :: "reading \<Rightarrow> jdict \<Rightarrow> bool \<times> rat" where
  "latest_age rd data =
     (case age_seconds rd data of
        Some a \<Rightarrow> (a \<le> MAX_AGE_SECONDS, a)
      | None \<Rightarrow> (False, 999))"

definition count_status :: "json \<Rightarrow> summary \<Rightarrow> summary" where
  "count_status st sm =
     (if st = JStr ''healthy'' then sm\<lparr>healthy := healthy sm + 1\<rparr>
      else if st = JStr ''warning'' then sm\<lparr>warning := warning sm + 1\<rparr>
      else if st = JStr ''critical'' then sm\<lparr>critical := critical sm + 1\<rparr>
      else sm)"

definition make_device :: "key \<Rightarrow> jdict \<Rightarrow> bool \<Rightarrow> rat \<Rightarrow> dashboard_device" where
  "make_device k data is_online age =
     \<lparr>dev_device_id = k,
      dev_hostname = dict_get data ''hostname'' (JStr ''Unknown''),
      dev_platform = dict_get data ''platform'' (JStr ''Unknown''),
      dev_is_online = is_online,
      dev_overall_status =
        (if \<not> is_online then JStr ''offline''
         else dict_get data ''overall_status'' (JStr ''unknown'')),
      dev_metrics = dict_get data ''metrics'' (JObj []),
      dev_last_seen = dict_get data ''received_at'' JNull,
      dev_age_seconds = (if age \<noteq> 999 then Some age else None)\<rparr>"

text \<open>
  One iteration of the loop. An exception raised while the statuses are collected is
  not caught: it ends the handler.
\<close>

definition latest_step :: "reading \<Rightarrow> key \<Rightarrow> jdict \<Rightarrow> loop_state \<Rightarrow> py_error + loop_state" where
  "latest_step rd k data s =
     (let s1 = s\<lparr>acc_summary := (acc_summary s)\<lparr>total_devices := total_devices (acc_summary s) + 1\<rparr>\<rparr>;
          (is_online, age) = latest_age rd data;
          dev = make_device k data is_online age
      in if is_online then
           (let s2 = s1\<lparr>acc_summary := (acc_summary s1)\<lparr>online := online (acc_summary s1) + 1\<rparr>\<rparr>;
                s3 = s2\<lparr>acc_summary :=
                        count_status (dict_get data ''overall_status'' (JStr ''unknown'')) (acc_summary s2)\<rparr>;
                metrics = dict_get data ''metrics'' (JObj [])
            in case collect_status ''cpu'' metrics (cpu_statuses s3) of
                 Inl e \<Rightarrow> Inl e
               | Inr cs \<Rightarrow>
             (case collect_status ''memory'' metrics (memory_statuses s3) of
                 Inl e \<Rightarrow> Inl e
               | Inr ms \<Rightarrow>
             (case collect_status ''disk'' metrics (disk_statuses s3) of
                 Inl e \<Rightarrow> Inl e
               | Inr ds \<Rightarrow>
             (case collect_status ''network'' metrics (network_statuses s3) of
                 Inl e \<Rightarrow> Inl e
               | Inr ns \<Rightarrow>
                   Inr (s3\<lparr>cpu_statuses := cs, memory_statuses := ms, disk_statuses := ds,
                            network_statuses := ns,
                            acc_devices := acc_devices s3 @ [dev]\<rparr>)))))
         else
           Inr (s1\<lparr>acc_summary := (acc_summary s1)\<lparr>offline := offline (acc_summary s1) + 1\<rparr>,
                   acc_devices := acc_devices s1 @ [dev]\<rparr>))"

fun latest_loop :: "(nat \<Rightarrow> reading) \<Rightarrow> nat \<Rightarrow> store \<Rightarrow> loop_state \<Rightarrow> py_error + loop_state" where
  "latest_loop clk i [] s = Inr s"
| "latest_loop clk i ((k, data) # rest) s =
     (case latest_step (clk i) k data s of
        Inl e \<Rightarrow> Inl e
      | Inr s' \<Rightarrow> latest_loop clk (Suc i) rest s')"

text \<open>The helper \<^verbatim>\<open>aggregate_status\<close>.\<close>

definition aggregate_status :: "json list \<Rightarrow> string" where
  "aggregate_status statuses =
     (if statuses = [] then ''unknown''
      else if JStr ''critical'' \<in> set statuses then ''critical''
      else if JStr ''warning'' \<in> set statuses then ''warning''
      else if list_all (\<lambda>s. s = JStr ''healthy'') statuses then ''healthy''
      else ''unknown'')"

text \<open>
  \<^verbatim>\<open>max(devices, key=lambda d: d.get('last_seen', ''))\<close>: the first device whose key no
  later one exceeds. Strings are ordered by code point, numbers by value; ordering
  any other pair of values is a \<^verbatim>\<open>TypeError\<close> here (the keys are the strings written by
  \<open>ingest_metrics\<close>; lists, which Python also orders, do not occur).
\<close>

fun str_less :: "string \<Rightarrow> string \<Rightarrow> bool" where
  "str_less [] [] = False"
| "str_less [] (y # ys) = True"
| "str_less (x # xs) [] = False"
| "str_less (x # xs) (y # ys) =
     (if x = y then str_less xs ys else (of_char x :: nat) < of_char y)"

fun num_of :: "json \<Rightarrow> rat option" where
  "num_of (JNum q) = Some q"
| "num_of (JBool b) = Some (if b then 1 else 0)"
| "num_of _ = None"

fun py_gt :: "json \<Rightarrow> json \<Rightarrow> py_error + bool" where
  "py_gt (JStr a) (JStr b) = Inr (str_less b a)"
| "py_gt x y =
     (case (num_of x, num_of y) of
        (Some p, Some q) \<Rightarrow> Inr (p > q)
      | _ \<Rightarrow> Inl TypeError)"

fun max_last_seen :: "dashboard_device \<Rightarrow> dashboard_device list \<Rightarrow> py_error + dashboard_device" where
  "max_last_seen best [] = Inr best"
| "max_last_seen best (d # ds) =
     (case py_gt (dev_last_seen d) (dev_last_seen best) of
        Inl e \<Rightarrow> Inl e
      | Inr b \<Rightarrow> max_last_seen (if b then d else best) ds)"

definition most_recent :: "dashboard_device list \<Rightarrow> py_error + dashboard_device option" where
  "most_recent ds =
     (case ds of
        [] \<Rightarrow> Inr None
      | d # rest \<Rightarrow> (case max_last_seen d rest of Inl e \<Rightarrow> Inl e | Inr m \<Rightarrow> Inr (Some m)))"

text \<open>
  The argument of a \<^verbatim>\<open>:.1f\<close> format: a number (or a boolean); a string raises
  \<^verbatim>\<open>ValueError\<close>, anything else \<^verbatim>\<open>TypeError\<close>.
\<close>

fun format_1f :: "json \<Rightarrow> py_error + rat" where
  "format_1f (JNum q) = Inr q"
| "format_1f (JBool b) = Inr (if b then 1 else 0)"
| "format_1f (JStr s) = Inl ValueError"
| "format_1f _ = Inl TypeError"

definition network_detail :: "json \<Rightarrow> py_error + detail" where
  "network_detail recent_metrics =
     (case py_get recent_metrics ''network'' JNull of
        Inl e \<Rightarrow> Inl e
      | Inr c \<Rightarrow>
          if truthy c then
            (case py_get recent_metrics ''network'' (JObj []) of
               Inl e \<Rightarrow> Inl e
             | Inr r \<Rightarrow>
                 (case py_get r ''connections'' (JNum 0) of
                    Inl e \<Rightarrow> Inl e
                  | Inr n \<Rightarrow> Inr (Connections n)))
          else Inr No_data)"

definition usage_detail :: "string \<Rightarrow> (rat \<Rightarrow> detail) \<Rightarrow> json \<Rightarrow> py_error + detail" where
  "usage_detail name mk recent_metrics =
     (case py_get recent_metrics name (JObj []) of
        Inl e \<Rightarrow> Inl e
      | Inr r \<Rightarrow>
          (case py_get r ''usage_percent'' JNull of
             Inl e \<Rightarrow> Inl e
           | Inr c \<Rightarrow>
               if truthy c then
                 (case py_get r ''usage_percent'' (JNum 0) of
                    Inl e \<Rightarrow> Inl e
                  | Inr u \<Rightarrow> (case format_1f u of Inl e \<Rightarrow> Inl e | Inr q \<Rightarrow> Inr (mk q)))
               else Inr No_data))"

definition no_data_response :: dashboard where
  "no_data_response =
     \<lparr>resp_status = ''no_data'',
      resp_timestamp = None,
      devices = [],
      summary = \<lparr>total_devices = 0, online = 0, offline = 0, healthy = 0, warning = 0,
                  critical = 0\<rparr>,
      system_status =
        \<lparr>network = \<lparr>status = ''unknown'', detail = No_data\<rparr>,
         compute = \<lparr>status = ''unknown'', detail = No_data\<rparr>,
         storage = \<lparr>status = ''unknown'', detail = No_data\<rparr>,
         cooling = \<lparr>status = ''unknown'', detail = No_data\<rparr>,
         security = \<lparr>status = ''unknown'', detail = No_data\<rparr>,
         power_sys = \<lparr>status = ''unknown'', detail = No_data\<rparr>\<rparr>\<rparr>"

definition init_state :: loop_state where
  "init_state =
     \<lparr>acc_devices = [],
      acc_summary = \<lparr>total_devices = 0, online = 0, offline = 0, healthy = 0, warning = 0,
                      critical = 0\<rparr>,
      cpu_statuses = [], memory_statuses = [], disk_statuses = [], network_statuses = []\<rparr>"

text \<open>What follows the loop: the rollups, the detail strings and the response.\<close>

definition build_response :: "datetime \<Rightarrow> loop_state \<Rightarrow> py_error + dashboard" where
  "build_response now s =
     (case most_recent (acc_devices s) of
        Inl e \<Rightarrow> Inl e
      | Inr mr \<Rightarrow>
     (let recent_metrics = (case mr of None \<Rightarrow> JObj [] | Some d \<Rightarrow> dev_metrics d) in
      case network_detail recent_metrics of
        Inl e \<Rightarrow> Inl e
      | Inr nd \<Rightarrow>
     (case usage_detail ''cpu'' Percent_cpu recent_metrics of
        Inl e \<Rightarrow> Inl e
      | Inr cd \<Rightarrow>
     (case usage_detail ''disk'' Percent_used recent_metrics of
        Inl e \<Rightarrow> Inl e
      | Inr dd \<Rightarrow>
          Inr \<lparr>resp_status = ''ok'',
               resp_timestamp = Some (isoformat now @ ''Z''),
               devices = acc_devices s,
               summary = acc_summary s,
               system_status =
                 \<lparr>network = \<lparr>status = aggregate_status (network_statuses s), detail = nd\<rparr>,
                  compute = \<lparr>status = aggregate_status (cpu_statuses s), detail = cd\<rparr>,
                  storage = \<lparr>status = aggregate_status (disk_statuses s), detail = dd\<rparr>,
                  cooling = \<lparr>status = ''healthy'', detail = Fixed_text ''Temperature optimal''\<rparr>,
                  security = \<lparr>status = ''healthy'', detail = Fixed_text ''All systems secure''\<rparr>,
                  power_sys =
                    \<lparr>status = (if online (acc_summary s) > 0 then ''healthy'' else ''unknown''),
                     detail = Online_of (online (acc_summary s)) (total_devices (acc_summary s))\<rparr>\<rparr>\<rparr>))))"

text \<open>
  The handler: \<open>Inl\<close> is an exception that leaves it (the framework answers 500),
  \<open>Inr\<close> the body of the 200 response. The clock is read once in each iteration and
  once more for the response's timestamp.
\<close>

definition get_latest_metrics :: "(nat \<Rightarrow> reading) \<Rightarrow> store \<Rightarrow> py_error + dashboard" where
  "get_latest_metrics clk st =
     (if st = [] then Inr no_data_response
      else case latest_loop clk 0 st init_state of
             Inl e \<Rightarrow> Inl e
           | Inr s \<Rightarrow> build_response (utcnow (clk (length st))) s)"

section \<open>Lock events of the handlers\<close>

text \<open>
  What each handler does with \<^verbatim>\<open>_metrics_lock\<close>, as the sequence of its steps.
  \<^verbatim>\<open>list_devices\<close> and \<^verbatim>\<open>get_latest_metrics\<close> open \<^verbatim>\<open>with _metrics_lock:\<close> on their
  first line and leave it with their \<^verbatim>\<open>return\<close>: the loop that classifies each entry,
  the rollups and the building of the response are all inside the block.
  \<^verbatim>\<open>ingest_metrics\<close> holds the lock for the one assignment to the store (what it does
  before taking the lock, and the log line, are left out).
\<close>

datatype event =
    Acquire
  | Release
  | Classify key
  | Aggregate
  | Store_write
  | Reply

definition list_devices_events :: "store \<Rightarrow> event list" where
  "list_devices_events st = [Acquire] @ map (\<lambda>e. Classify (fst e)) st @ [Reply, Release]"

definition get_latest_metrics_events :: "store \<Rightarrow> event list" where
  "get_latest_metrics_events st =
     [Acquire] @
     (if st = [] then [Reply] else map (\<lambda>e. Classify (fst e)) st @ [Aggregate, Reply]) @
     [Release]"

definition ingest_events :: "event list" where
  "ingest_events = [Acquire, Store_write, Release, Reply]"

text \<open>
  \<open>work_locked h es\<close>: starting with the lock held or not (\<open>h\<close>), every classification
  and aggregation step of \<open>es\<close> runs with the lock held. \<open>work_unlocked\<close>: every one
  runs with the lock released.
\<close>

fun work_locked :: "bool \<Rightarrow> event list \<Rightarrow> bool" where
  "work_locked h [] = True"
| "work_locked h (Acquire # es) = work_locked True es"
| "work_locked h (Release # es) = work_locked False es"
| "work_locked h (Classify k # es) = (h \<and> work_locked h es)"
| "work_locked h (Aggregate # es) = (h \<and> work_locked h es)"
| "work_locked h (e # es) = work_locked h es"

fun work_unlocked :: "bool \<Rightarrow> event list \<Rightarrow> bool" where
  "work_unlocked h [] = True"
| "work_unlocked h (Acquire # es) = work_unlocked True es"
| "work_unlocked h (Release # es) = work_unlocked False es"
| "work_unlocked h (Classify k # es) = (\<not> h \<and> work_unlocked h es)"
| "work_unlocked h (Aggregate # es) = (\<not> h \<and> work_unlocked h es)"
| "work_unlocked h (e # es) = work_unlocked h es"

text \<open>
  Two threads, one in a read handler and one in \<^verbatim>\<open>ingest_metrics\<close>. A schedule is the
  order in which their steps happen; \<open>run_sched\<close> follows the lock through it: the
  holder at the end, or \<open>None\<close> when a step is not possible (\<^verbatim>\<open>Acquire\<close> on a held lock
  would wait).
\<close>

datatype tid = Reader | Writer

fun lock_step :: "tid option \<Rightarrow> tid \<times> event \<Rightarrow> tid option option" where
  "lock_step h (t, Acquire) = (if h = None then Some (Some t) else None)"
| "lock_step h (t, Release) = (if h = Some t then Some None else None)"
| "lock_step h (t, e) = Some h"

fun run_sched :: "tid option \<Rightarrow> (tid \<times> event) list \<Rightarrow> tid option option" where
  "run_sched h [] = Some h"
| "run_sched h (x # xs) = (case lock_step h x of None \<Rightarrow> None | Some h' \<Rightarrow> run_sched h' xs)"

text \<open>Whether a thread holds the lock after its steps \<open>es\<close>, holding it or not before.\<close>

fun holds :: "bool \<Rightarrow> event list \<Rightarrow> bool" where
  "holds h [] = h"
| "holds h (Acquire # es) = holds True es"
| "holds h (Release # es) = holds False es"
| "holds h (e # es) = holds h es"

definition steps_of :: "tid \<Rightarrow> (tid \<times> event) list \<Rightarrow> event list" where
  "steps_of t sched = map snd (filter (\<lambda>x. fst x = t) sched)"

section \<open>The properties, in the specification's terms\<close>

text \<open>
  Freshness as the specification states it, on instants in microseconds:
  stale when \<open>now - received_at > window\<close>, and when there is no \<open>received_at\<close>.
\<close>

definition is_stale_spec :: "int option \<Rightarrow> int \<Rightarrow> int \<Rightarrow> bool" where
  "is_stale_spec received_at now window =
     (case received_at of None \<Rightarrow> True | Some r \<Rightarrow> now - r > window)"

text \<open>
  The instant a parsed \<open>received_at\<close> denotes: its wall time less its zone offset, the
  local zone's when the string names none.
\<close>

definition instant_us :: "reading \<Rightarrow> datetime \<times> int option \<Rightarrow> int" where
  "instant_us rd p = to_us (fst p) - (case snd p of Some off \<Rightarrow> off | None \<Rightarrow> utcoffset rd)"

definition received_instant :: "reading \<Rightarrow> jdict \<Rightarrow> int option" where
  "received_instant rd data = map_option (instant_us rd) (received_at_of data)"

definition window_us :: int where
  "window_us = 60 * 1000000"

text \<open>The entries of the store with their position, and the fresh and stale ones.\<close>

definition entry_online :: "(nat \<Rightarrow> reading) \<Rightarrow> nat \<times> key \<times> jdict \<Rightarrow> bool" where
  "entry_online clk e = (\<not> list_is_stale (clk (fst e)) (snd (snd e)))"

definition online_from :: "(nat \<Rightarrow> reading) \<Rightarrow> nat \<Rightarrow> store \<Rightarrow> jdict list" where
  "online_from clk i st = map (\<lambda>e. snd (snd e)) (filter (entry_online clk) (enumerate i st))"

definition offline_from :: "(nat \<Rightarrow> reading) \<Rightarrow> nat \<Rightarrow> store \<Rightarrow> jdict list" where
  "offline_from clk i st =
     map (\<lambda>e. snd (snd e)) (filter (\<lambda>e. \<not> entry_online clk e) (enumerate i st))"

definition device_of :: "(nat \<Rightarrow> reading) \<Rightarrow> nat \<times> key \<times> jdict \<Rightarrow> dashboard_device" where
  "device_of clk e =
     make_device (fst (snd e)) (snd (snd e))
       (fst (latest_age (clk (fst e)) (snd (snd e)))) (snd (latest_age (clk (fst e)) (snd (snd e))))"

text \<open>
  The \<^verbatim>\<open>status\<close> field of the reading \<open>name\<close> of a report, as a list of at most one
  element: none when the report has no such reading, \<^verbatim>\<open>'unknown'\<close> when the reading has
  no \<^verbatim>\<open>status\<close>.
\<close>

definition reading_status :: "string \<Rightarrow> jdict \<Rightarrow> json list" where
  "reading_status name data =
     (case dict_get data ''metrics'' (JObj []) of
        JObj m \<Rightarrow>
          (case map_of m name of
             Some (JObj r) \<Rightarrow> [dict_get r ''status'' (JStr ''unknown'')]
           | _ \<Rightarrow> [])
      | _ \<Rightarrow> [])"

definition fresh_statuses :: "(nat \<Rightarrow> reading) \<Rightarrow> store \<Rightarrow> string \<Rightarrow> json list" where
  "fresh_statuses clk st name = concat (map (reading_status name) (online_from clk 0 st))"

definition has_status :: "string \<Rightarrow> jdict \<Rightarrow> bool" where
  "has_status v data = (dict_get data ''overall_status'' (JStr ''unknown'') = JStr v)"

text \<open>The rollup rule of the specification, on the collected statuses \<open>S\<close>.\<close>

definition rollup_spec :: "json list \<Rightarrow> string" where
  "rollup_spec S =
     (if S = [] then ''unknown''
      else if JStr ''critical'' \<in> set S then ''critical''
      else if JStr ''warning'' \<in> set S then ''warning''
      else if set S \<subseteq> {JStr ''healthy''} then ''healthy''
      else ''unknown'')"

text \<open>The device status of the specification, with the four recognised values.\<close>

definition recognised :: "json \<Rightarrow> bool" where
  "recognised v =
     (v = JStr ''healthy'' \<or> v = JStr ''warning'' \<or> v = JStr ''critical'' \<or> v = JStr ''unknown'')"

definition device_status_spec :: "bool \<Rightarrow> jdict \<Rightarrow> json" where
  "device_status_spec stale data =
     (if stale then JStr ''offline''
      else case map_of data ''overall_status'' of
             None \<Rightarrow> JStr ''unknown''
           | Some v \<Rightarrow> (if recognised v then v else JStr ''unknown''))"

text \<open>The stores that calls of \<open>ingest_metrics\<close> build from the empty one.\<close>

inductive reachable :: "store \<Rightarrow> bool" where
  start: "reachable []"
| ingest: "reachable st \<Longrightarrow> valid_datetime now \<Longrightarrow> reachable (snd (ingest_metrics now data st))"

text \<open>The keys the receiver writes into an entry; the rest is the report.\<close>

definition engine_keys :: "string list" where
  "engine_keys = [''received_at'', ''is_stale'', ''age_seconds'']"

subsection \<open>Example inputs\<close>

definition example_now :: datetime where
  "example_now =
     \<lparr>year = 2024, month = 1, day = 1, hour = 0, minute = 0, second = 0, microsecond = 0\<rparr>"

definition clock_5s :: "nat \<Rightarrow> reading" where
  "clock_5s i = \<lparr>utcnow = example_now\<lparr>second := 5\<rparr>, utcoffset = 0\<rparr>"

definition later_now :: datetime where
  "later_now = example_now\<lparr>minute := 2\<rparr>"

definition clock_125s :: "nat \<Rightarrow> reading" where
  "clock_125s i = \<lparr>utcnow = example_now\<lparr>minute := 2, second := 5\<rparr>, utcoffset = 0\<rparr>"

text \<open>A report whose \<^verbatim>\<open>overall_status\<close> is not one of the four values, ingested alone.\<close>

definition banana_report :: jdict where
  "banana_report = [(''device_id'', JStr ''a''), (''overall_status'', JStr ''banana'')]"

definition banana_store :: store where
  "banana_store = snd (ingest_metrics example_now (JObj banana_report) [])"

text \<open>A report that carries a \<^verbatim>\<open>received_at\<close> field of its own.\<close>

definition stamped_report :: jdict where
  "stamped_report = [(''device_id'', JStr ''a''), (''received_at'', JStr ''bogus'')]"

text \<open>
  Two devices: \<^verbatim>\<open>a\<close> reports at \<open>example_now\<close>, \<^verbatim>\<open>b\<close> two minutes later. Five seconds
  after that (\<open>clock_125s\<close>), \<^verbatim>\<open>a\<close> is stale and \<^verbatim>\<open>b\<close> is fresh.
\<close>

definition report_a :: jdict where
  "report_a =
     [(''device_id'', JStr ''a''), (''overall_status'', JStr ''healthy''),
      (''metrics'', JObj [(''cpu'', JObj [(''status'', JStr ''warning'')])])]"

definition report_b :: jdict where
  "report_b =
     [(''device_id'', JStr ''b''), (''overall_status'', JStr ''critical''),
      (''metrics'',
       JObj [(''cpu'', JObj [(''status'', JStr ''healthy''), (''usage_percent'', JNum 42)])])]"

definition fleet_store :: store where
  "fleet_store =
     snd (ingest_metrics later_now (JObj report_b)
            (snd (ingest_metrics example_now (JObj report_a) [])))"

section \<open>Timestamps written by the receiver parse back\<close>

lemma digit_val_nth: "k < 10 \<Longrightarrow> digit_val (''0123456789'' ! k) = Some k"
proof -
  assume "k < 10"
  then have "k \<in> {0, 1, 2, 3, 4, 5, 6, 7, 8, 9}" by auto
  then show ?thesis
    unfolding digit_val_def by (elim insertE emptyE) simp_all
qed

lemma digit_val_char: "digit_val (digit_char n) = Some (n mod 10)"
  unfolding digit_char_def by (rule digit_val_nth) simp

lemma digit_char_is: "digit_char n \<in> set ''0123456789''"
  unfolding digit_char_def by (rule nth_mem) simp

lemma digit_char_neq [simp]:
  "digit_char n \<noteq> CHR ''Z''" "digit_char n \<noteq> CHR ''-''" "digit_char n \<noteq> CHR ''+''"
  "digit_char n \<noteq> CHR '':''" "digit_char n \<noteq> CHR ''.''" "digit_char n \<noteq> CHR ''T''"
  using digit_char_is [of n] by auto

lemma dec_shift: "n div (k * 10) * 10 + n div k mod 10 = (n div k :: nat)"
  by (simp add: div_mult2_eq)

lemma parse_pad2: "n < 100 \<Longrightarrow> parse_int (pad2 n) = Some n"
proof -
  assume "n < 100"
  then have a: "n div 10 mod 10 = n div 10" by simp
  show ?thesis
    by (simp add: parse_int_def pad2_def digit_val_char a)
qed

lemma parse_pad4: "n < 10000 \<Longrightarrow> parse_int (pad4 n) = Some n"
proof -
  assume "n < 10000"
  then have a: "n div 1000 mod 10 = n div 1000" by simp
  have b: "n div 1000 * 10 + n div 100 mod 10 = n div 100"
    using dec_shift [of n 100] by simp
  have c: "n div 100 * 10 + n div 10 mod 10 = n div 10"
    using dec_shift [of n 10] by simp
  show ?thesis
    by (simp add: parse_int_def pad4_def digit_val_char a b c)
qed

lemma parse_pad6: "n < 1000000 \<Longrightarrow> parse_int (pad6 n) = Some n"
proof -
  assume "n < 1000000"
  then have a: "n div 100000 mod 10 = n div 100000" by simp
  have b: "n div 100000 * 10 + n div 10000 mod 10 = n div 10000"
    using dec_shift [of n 10000] by simp
  have c: "n div 10000 * 10 + n div 1000 mod 10 = n div 1000"
    using dec_shift [of n 1000] by simp
  have d: "n div 1000 * 10 + n div 100 mod 10 = n div 100"
    using dec_shift [of n 100] by simp
  have e: "n div 100 * 10 + n div 10 mod 10 = n div 10"
    using dec_shift [of n 10] by simp
  show ?thesis
    by (simp add: parse_int_def pad6_def digit_val_char a b c d e)
qed

lemmas parse_pads = parse_pad2 [unfolded pad2_def] parse_pad4 [unfolded pad4_def]
  parse_pad6 [unfolded pad6_def]

lemma replace_Z_isoformat: "replace_Z (isoformat t @ ''Z'') = isoformat t @ ''+00:00''"
  by (simp add: replace_Z_def isoformat_def pad2_def pad4_def pad6_def)

lemma date_of_isoformat:
  "valid_datetime t \<Longrightarrow>
     parse_isoformat_date (take 10 (isoformat t @ r)) = Some (year t, month t, day t)"
proof -
  assume v: "valid_datetime t"
  then have "year t < 10000" "month t < 100" "day t < 100"
    by (auto simp: valid_datetime_def days_in_month_def split: if_splits)
  then show ?thesis
    by (simp add: parse_isoformat_date_def isoformat_def pad2_def pad4_def parse_pads)
qed

lemma time_of_isoformat:
  "valid_datetime t \<Longrightarrow>
     parse_isoformat_time (drop 11 (isoformat t @ ''+00:00'')) =
       Some ((hour t, minute t, second t, microsecond t), Some 0)"
proof -
  assume v: "valid_datetime t"
  then have b: "hour t < 100" "minute t < 100" "second t < 100" "microsecond t < 1000000"
    by (auto simp: valid_datetime_def)
  have z: "parse_int ''00'' = Some 0"
    by (simp add: parse_int_def digit_val_def)
  show ?thesis
  proof (cases "microsecond t = 0")
    case True
    with b z show ?thesis
      by (simp add: parse_isoformat_time_def isoformat_def pad2_def pad4_def tz_pos_def
          parse_hh_mm_ss_ff_def parse_fraction_def parse_tz_def parse_pads)
  next
    case False
    with b z show ?thesis
      by (simp add: parse_isoformat_time_def isoformat_def pad2_def pad4_def pad6_def tz_pos_def
          parse_hh_mm_ss_ff_def parse_fraction_def parse_tz_def parse_pads)
  qed
qed

lemma datetime_eta:
  "\<lparr>year = year t, month = month t, day = day t, hour = hour t, minute = minute t,
    second = second t, microsecond = microsecond t\<rparr> = (t :: datetime)"
  by (cases t) simp

lemma fromisoformat_isoformat:
  "valid_datetime t \<Longrightarrow> fromisoformat (replace_Z (isoformat t @ ''Z'')) = Some (t, Some 0)"
proof -
  assume v: "valid_datetime t"
  have n: "\<not> length (isoformat t @ ''+00:00'') \<le> 10"
    by (simp add: isoformat_def pad2_def pad4_def)
  show ?thesis
    unfolding replace_Z_isoformat fromisoformat_def
    by (simp only: date_of_isoformat [OF v] time_of_isoformat [OF v] n) (simp add: v datetime_eta)
qed

lemma received_at_of_stamp:
  "valid_datetime t \<Longrightarrow>
     received_at_of (AList.update ''received_at'' (JStr (isoformat t @ ''Z'')) kvs) = Some (t, Some 0)"
  by (simp add: received_at_of_def update_conv' fromisoformat_isoformat)

lemma age_seconds_stamp:
  "valid_datetime t \<Longrightarrow>
     age_seconds rd (AList.update ''received_at'' (JStr (isoformat t @ ''Z'')) kvs) =
       Some (of_int (to_us (utcnow rd) - to_us t) / 1000000)"
  by (simp add: age_seconds_def received_at_of_stamp age_us_def)

lemma valid_example_now: "valid_datetime example_now"
  by (simp add: valid_datetime_def example_now_def days_in_month_def)

section \<open>Ingestion\<close>

lemma py_contains_obj: "py_contains k (JObj m) = Inr (map_of m k \<noteq> None)"
  by (simp add: map_of_eq_None_iff)

lemma ingest_invalid_unchanged:
  "fst (ingest_metrics now data st) = Ingest_invalid \<Longrightarrow> snd (ingest_metrics now data st) = st"
  by (auto simp: ingest_metrics_def Let_def split: sum.splits bool.splits if_splits)

lemma ingest_object:
  "ingest_metrics now (JObj kvs) st =
     (case map_of kvs ''device_id'' of
        None \<Rightarrow> (Ingest_invalid, st)
      | Some dev \<Rightarrow>
          (let data' = AList.update ''received_at'' (JStr (isoformat now @ ''Z'')) kvs in
           case hash_key dev of
             Inl e \<Rightarrow> (Ingest_error e, st)
           | Inr k \<Rightarrow>
               (case log_cpu data' of
                  Inl e \<Rightarrow> (Ingest_error e, AList.update k data' st)
                | Inr x \<Rightarrow> (Ingest_ok dev (isoformat now @ ''Z''), AList.update k data' st))))"
proof (cases "map_of kvs ''device_id''")
  case None
  then show ?thesis
    by (cases kvs) (simp_all add: ingest_metrics_def py_contains_obj del: py_contains.simps)
next
  case (Some dev)
  then have "kvs \<noteq> []" by auto
  with Some show ?thesis
    by (simp add: ingest_metrics_def py_contains_obj Let_def del: py_contains.simps
             split: sum.splits)
qed

lemma ingest_stores:
  assumes "map_of kvs ''device_id'' = Some (JStr d)"
  shows "snd (ingest_metrics now (JObj kvs) st) =
           AList.update (KStr d) (AList.update ''received_at'' (JStr (isoformat now @ ''Z'')) kvs) st"
  using assms by (simp add: ingest_object Let_def split: sum.splits)

text \<open>
  C3 (as the code has it). A report, a JSON object, is answered with the validation
  error exactly when it has no \<^verbatim>\<open>device_id\<close> field (the empty object included). A
  report whose \<^verbatim>\<open>device_id\<close> is the empty string is not rejected: it is stored
  under the key \<^verbatim>\<open>''\<close>.
\<close>

theorem ingest_rejects_missing_device_id:
  "(fst (ingest_metrics now (JObj kvs) st) = Ingest_invalid) = (map_of kvs ''device_id'' = None) \<and>
   (map_of kvs ''device_id'' = Some (JStr []) \<longrightarrow>
      fst (ingest_metrics now (JObj kvs) st) \<noteq> Ingest_invalid \<and>
      map_of (snd (ingest_metrics now (JObj kvs) st)) (KStr []) =
        Some (AList.update ''received_at'' (JStr (isoformat now @ ''Z'')) kvs))"
  by (auto simp: ingest_object Let_def update_conv' split: option.splits sum.splits)

theorem ingest_rejects_missing_device_id_witness:
  "map_of [(''device_id'', JStr [])] ''device_id'' = Some (JStr []) \<and>
   fst (ingest_metrics example_now (JObj [(''device_id'', JStr [])]) []) \<noteq> Ingest_invalid \<and>
   map_of (snd (ingest_metrics example_now (JObj [(''device_id'', JStr [])]) [])) (KStr []) =
     Some (AList.update ''received_at'' (JStr (isoformat example_now @ ''Z''))
            [(''device_id'', JStr [])])"
  using ingest_rejects_missing_device_id [of example_now "[(''device_id'', JStr [])]" "[]"]
  by simp

text \<open>
  C3 as stated fails: the report \<^verbatim>\<open>{"device_id": ""}\<close> is accepted and ingested.
\<close>

theorem empty_device_id_accepted:
  "fst (ingest_metrics example_now (JObj [(''device_id'', JStr [])]) []) =
     Ingest_ok (JStr []) (isoformat example_now @ ''Z'') \<and>
   map_of (snd (ingest_metrics example_now (JObj [(''device_id'', JStr [])]) [])) (KStr []) \<noteq> None"
  by (simp add: ingest_object Let_def log_cpu_def dict_get_def)

text \<open>
  C4. The report \<^verbatim>\<open>{"device_id": "a", "metrics": null}\<close> on the empty store: the entry is
  written, then the log line raises and the caller gets the 500 response; the store
  is not the one before the call.
\<close>

theorem ingest_error_after_write:
  "fst (ingest_metrics example_now (JObj [(''device_id'', JStr ''a''), (''metrics'', JNull)]) []) =
     Ingest_error AttributeError \<and>
   snd (ingest_metrics example_now (JObj [(''device_id'', JStr ''a''), (''metrics'', JNull)]) []) =
     [(KStr ''a'', [(''device_id'', JStr ''a''), (''metrics'', JNull),
                    (''received_at'', JStr (isoformat example_now @ ''Z''))])] \<and>
   snd (ingest_metrics example_now (JObj [(''device_id'', JStr ''a''), (''metrics'', JNull)]) []) \<noteq> []"
  by (simp add: ingest_object Let_def log_cpu_def dict_get_def)

lemma example_age_5s:
  "age_seconds (clock_5s i) (AList.update ''received_at'' (JStr (isoformat example_now @ ''Z'')) kvs) = Some 5"
  by (simp only: age_seconds_stamp [OF valid_example_now])
     (simp add: to_us_def clock_5s_def example_now_def)

lemma restrict_report:
  assumes "\<And>k. k \<notin> set engine_keys \<Longrightarrow> map_of body k = map_of kvs k"
    and "set engine_keys \<inter> fst ` set kvs = {}"
  shows "map_of body |` (- set engine_keys) = map_of kvs"
proof
  fix k
  show "(map_of body |` (- set engine_keys)) k = map_of kvs k"
  proof (cases "k \<in> set engine_keys")
    case True
    with assms(2) have "k \<notin> fst ` set kvs" by auto
    then have "map_of kvs k = None" by (simp add: map_of_eq_None_iff)
    with True show ?thesis by simp
  next
    case False
    with assms(1) show ?thesis by simp
  qed
qed

text \<open>
  C7 (as the code has it). After \<open>ingest_metrics\<close> of a report with a non-empty string
  \<^verbatim>\<open>device_id\<close>, the detail of that device is found. It agrees with the report on
  every key but \<^verbatim>\<open>received_at\<close>, \<^verbatim>\<open>is_stale\<close> and \<^verbatim>\<open>age_seconds\<close>; these three the
  receiver writes itself, over whatever the report carried: \<^verbatim>\<open>received_at\<close> is the
  receiver's stamp, \<^verbatim>\<open>is_stale\<close> and \<^verbatim>\<open>age_seconds\<close> are computed from it. So the
  detail without the three keys equals the report exactly when the report carries none
  of them. The entry stored is the report with \<^verbatim>\<open>received_at\<close> set.
\<close>

theorem record_then_get:
  assumes "map_of kvs ''device_id'' = Some (JStr d)" and "d \<noteq> []"
  shows "\<exists>body. get_device_metrics rd d (snd (ingest_metrics now (JObj kvs) st)) = Detail_ok body \<and>
           (\<forall>k. k \<notin> set engine_keys \<longrightarrow> map_of body k = map_of kvs k) \<and>
           (set engine_keys \<inter> fst ` set kvs = {} \<longrightarrow>
              map_of body |` (- set engine_keys) = map_of kvs) \<and>
           map_of body ''received_at'' = Some (JStr (isoformat now @ ''Z'')) \<and>
           (valid_datetime now \<longrightarrow>
              map_of body ''is_stale'' =
                Some (JBool (of_int (to_us (utcnow rd) - to_us now) / 1000000 > MAX_AGE_SECONDS)) \<and>
              map_of body ''age_seconds'' =
                Some (JNum (of_int (to_us (utcnow rd) - to_us now) / 1000000))) \<and>
         map_of (snd (ingest_metrics now (JObj kvs) st)) (KStr d) =
           Some (AList.update ''received_at'' (JStr (isoformat now @ ''Z'')) kvs)"
proof -
  let ?e = "AList.update ''received_at'' (JStr (isoformat now @ ''Z'')) kvs"
  have st: "map_of (snd (ingest_metrics now (JObj kvs) st)) (KStr d) = Some ?e"
    using assms(1) by (simp add: ingest_stores update_conv')
  obtain body where b: "get_device_metrics rd d (snd (ingest_metrics now (JObj kvs) st)) = Detail_ok body"
    and bd: "body = (case age_seconds rd ?e of
               Some a \<Rightarrow>
                 AList.update ''age_seconds'' (JNum a)
                   (AList.update ''is_stale'' (JBool (a > MAX_AGE_SECONDS)) ?e)
             | None \<Rightarrow> AList.update ''is_stale'' (JBool True) ?e)"
    by (simp add: get_device_metrics_def st)
  have k: "map_of body k = map_of kvs k" if "k \<notin> set engine_keys" for k
    using that by (simp add: bd update_conv' engine_keys_def split: option.splits)
  have r: "map_of body ''received_at'' = Some (JStr (isoformat now @ ''Z''))"
    by (simp add: bd update_conv' split: option.splits)
  have v: "map_of body ''is_stale'' =
                Some (JBool (of_int (to_us (utcnow rd) - to_us now) / 1000000 > MAX_AGE_SECONDS)) \<and>
              map_of body ''age_seconds'' =
                Some (JNum (of_int (to_us (utcnow rd) - to_us now) / 1000000))"
    if "valid_datetime now"
    unfolding bd age_seconds_stamp [OF that] by (simp add: update_conv')
  have q: "map_of body |` (- set engine_keys) = map_of kvs"
    if "set engine_keys \<inter> fst ` set kvs = {}"
    using k that by (rule restrict_report)
  from b k q r v st show ?thesis by blast
qed

theorem record_then_get_witness:
  "map_of report_a ''device_id'' = Some (JStr ''a'') \<and>
   set engine_keys \<inter> fst ` set report_a = {} \<and> valid_datetime example_now \<and>
   (\<exists>body. get_device_metrics (clock_5s 0) ''a''
             (snd (ingest_metrics example_now (JObj report_a) [])) = Detail_ok body \<and>
      map_of body |` (- set engine_keys) = map_of report_a \<and>
      map_of body ''received_at'' = Some (JStr (isoformat example_now @ ''Z'')) \<and>
      map_of body ''is_stale'' = Some (JBool False) \<and>
      map_of body ''age_seconds'' = Some (JNum 5))"
proof -
  have a: "map_of report_a ''device_id'' = Some (JStr ''a'')"
    by (simp add: report_a_def)
  have e: "set engine_keys \<inter> fst ` set report_a = {}"
    by (simp add: engine_keys_def report_a_def)
  have t: "to_us (utcnow (clock_5s 0)) - to_us example_now = 5000000"
    by (simp add: to_us_def clock_5s_def example_now_def)
  from record_then_get [OF a, of "clock_5s 0" example_now "[]"] a e valid_example_now t
  show ?thesis by (auto simp: MAX_AGE_SECONDS_def)
qed

text \<open>
  C7 as stated fails: the report \<^verbatim>\<open>{"device_id": "a", "received_at": "bogus"}\<close> is stored
  and returned with the receiver's stamp in \<^verbatim>\<open>received_at\<close>, not with \<^verbatim>\<open>bogus\<close>.
\<close>

theorem received_at_replaced:
  "map_of stamped_report ''device_id'' = Some (JStr ''a'') \<and>
   map_of stamped_report ''received_at'' = Some (JStr ''bogus'') \<and>
   snd (ingest_metrics example_now (JObj stamped_report) []) =
     [(KStr ''a'', [(''device_id'', JStr ''a''),
                    (''received_at'', JStr (isoformat example_now @ ''Z''))])] \<and>
   get_device_metrics (clock_5s 0) ''a'' (snd (ingest_metrics example_now (JObj stamped_report) [])) =
     Detail_ok [(''device_id'', JStr ''a''),
                (''received_at'', JStr (isoformat example_now @ ''Z'')),
                (''is_stale'', JBool False), (''age_seconds'', JNum 5)] \<and>
   isoformat example_now @ ''Z'' \<noteq> ''bogus''"
proof -
  have a: "map_of stamped_report ''device_id'' = Some (JStr ''a'')"
    by (simp add: stamped_report_def)
  have s: "snd (ingest_metrics example_now (JObj stamped_report) []) =
     [(KStr ''a'', AList.update ''received_at'' (JStr (isoformat example_now @ ''Z'')) stamped_report)]"
    by (simp add: ingest_stores [OF a])
  have g: "get_device_metrics (clock_5s 0) ''a''
      [(KStr ''a'', AList.update ''received_at'' (JStr (isoformat example_now @ ''Z'')) stamped_report)] =
     Detail_ok (AList.update ''age_seconds'' (JNum 5) (AList.update ''is_stale'' (JBool False)
       (AList.update ''received_at'' (JStr (isoformat example_now @ ''Z'')) stamped_report)))"
    by (simp add: get_device_metrics_def example_age_5s MAX_AGE_SECONDS_def)
  have n: "isoformat example_now @ ''Z'' \<noteq> ''bogus''"
    by (simp add: isoformat_def pad4_def)
  show ?thesis
    unfolding s g using n by (simp add: stamped_report_def)
qed

text \<open>
  C8. On the empty store the dashboard is the fixed no-data response: every count of
  the summary is zero and each of the six subsystems has status \<^verbatim>\<open>unknown\<close>.
\<close>

theorem dashboard_empty:
  "\<exists>r. get_latest_metrics clk [] = Inr r \<and> resp_status r = ''no_data'' \<and> devices r = [] \<and>
     total_devices (summary r) = 0 \<and> online (summary r) = 0 \<and> offline (summary r) = 0 \<and>
     healthy (summary r) = 0 \<and> warning (summary r) = 0 \<and> critical (summary r) = 0 \<and>
     status (network (system_status r)) = ''unknown'' \<and>
     status (compute (system_status r)) = ''unknown'' \<and>
     status (storage (system_status r)) = ''unknown'' \<and>
     status (cooling (system_status r)) = ''unknown'' \<and>
     status (security (system_status r)) = ''unknown'' \<and>
     status (power_sys (system_status r)) = ''unknown''"
  by (simp add: get_latest_metrics_def no_data_response_def)

section \<open>The read handlers, entry by entry\<close>

lemma list_loop_eq:
  "list_loop clk i st acc = acc @ map (\<lambda>e. list_row (clk (fst e)) (fst (snd e)) (snd (snd e))) (enumerate i st)"
  by (induction st arbitrary: i acc) auto

lemma list_devices_length: "length (list_devices clk st) = length st"
  by (simp add: list_devices_def list_loop_eq)

lemma list_devices_nth:
  "i < length st \<Longrightarrow> list_devices clk st ! i = list_row (clk i) (fst (st ! i)) (snd (st ! i))"
  by (simp add: list_devices_def list_loop_eq nth_enumerate_eq)

lemma latest_age_online: "fst (latest_age rd data) = (\<not> list_is_stale rd data)"
  by (auto simp: latest_age_def list_is_stale_def split: option.splits)

lemma collect_status_eq:
  assumes "collect_status name (dict_get data ''metrics'' (JObj [])) acc = Inr acc'"
  shows "acc' = acc @ reading_status name data"
proof (cases "dict_get data ''metrics'' (JObj [])")
  case (JObj m)
  with assms show ?thesis
    unfolding collect_status_def reading_status_def
    by (cases "map_of m name")
       (auto simp: py_contains_obj simp del: py_contains.simps
             split: sum.splits json.splits)
next
  case (JArr xs)
  with assms show ?thesis
    unfolding collect_status_def reading_status_def
    by (auto split: sum.splits bool.splits)
next
  case (JStr x)
  with assms show ?thesis
    unfolding collect_status_def reading_status_def
    by (auto split: sum.splits bool.splits)
qed (use assms in \<open>auto simp: collect_status_def\<close>)

lemma count_status_fields:
  "total_devices (count_status v sm) = total_devices sm"
  "online (count_status v sm) = online sm"
  "offline (count_status v sm) = offline sm"
  "healthy (count_status v sm) = healthy sm + (if v = JStr ''healthy'' then 1 else 0)"
  "warning (count_status v sm) = warning sm + (if v = JStr ''warning'' then 1 else 0)"
  "critical (count_status v sm) = critical sm + (if v = JStr ''critical'' then 1 else 0)"
  by (simp_all add: count_status_def)

lemma latest_step_offline:
  assumes "list_is_stale rd data"
  shows "latest_step rd k data s =
    Inr (s\<lparr>acc_summary := (acc_summary s)\<lparr>total_devices := total_devices (acc_summary s) + 1,
                                          offline := offline (acc_summary s) + 1\<rparr>,
           acc_devices := acc_devices s @
             [make_device k data False (snd (latest_age rd data))]\<rparr>)"
proof -
  obtain b a where ba: "latest_age rd data = (b, a)" by (cases "latest_age rd data")
  with assms latest_age_online [of rd data] have "\<not> b" by simp
  with ba show ?thesis by (simp add: latest_step_def)
qed

lemma latest_step_online:
  assumes "\<not> list_is_stale rd data" and "latest_step rd k data s = Inr s'"
  shows "s' =
    s\<lparr>acc_summary :=
         count_status (dict_get data ''overall_status'' (JStr ''unknown''))
           ((acc_summary s)\<lparr>total_devices := total_devices (acc_summary s) + 1,
                            online := online (acc_summary s) + 1\<rparr>),
       cpu_statuses := cpu_statuses s @ reading_status ''cpu'' data,
       memory_statuses := memory_statuses s @ reading_status ''memory'' data,
       disk_statuses := disk_statuses s @ reading_status ''disk'' data,
       network_statuses := network_statuses s @ reading_status ''network'' data,
       acc_devices := acc_devices s @ [make_device k data True (snd (latest_age rd data))]\<rparr>"
proof -
  obtain b a where ba: "latest_age rd data = (b, a)" by (cases "latest_age rd data")
  with assms(1) latest_age_online [of rd data] have b by simp
  with ba assms(2) show ?thesis
    by (auto simp: latest_step_def Let_def split: sum.splits dest!: collect_status_eq)
qed

lemma from_Nil [simp]: "online_from clk i [] = []" "offline_from clk i [] = []"
  by (simp_all add: online_from_def offline_from_def)

lemma from_Cons:
  "online_from clk i ((k, data) # st) =
     (if list_is_stale (clk i) data then [] else [data]) @ online_from clk (Suc i) st"
  "offline_from clk i ((k, data) # st) =
     (if list_is_stale (clk i) data then [data] else []) @ offline_from clk (Suc i) st"
  by (simp_all add: online_from_def offline_from_def entry_online_def)

lemma device_of_simp:
  "device_of clk (i, k, data) =
     make_device k data (\<not> list_is_stale (clk i) data) (snd (latest_age (clk i) data))"
  by (simp add: device_of_def latest_age_online)

lemma latest_loop_inv:
  "latest_loop clk i st s = Inr s' \<Longrightarrow>
     acc_devices s' = acc_devices s @ map (device_of clk) (enumerate i st) \<and>
     total_devices (acc_summary s') = total_devices (acc_summary s) + length st \<and>
     online (acc_summary s') = online (acc_summary s) + length (online_from clk i st) \<and>
     offline (acc_summary s') = offline (acc_summary s) + length (offline_from clk i st) \<and>
     healthy (acc_summary s') =
       healthy (acc_summary s) + length (filter (has_status ''healthy'') (online_from clk i st)) \<and>
     warning (acc_summary s') =
       warning (acc_summary s) + length (filter (has_status ''warning'') (online_from clk i st)) \<and>
     critical (acc_summary s') =
       critical (acc_summary s) + length (filter (has_status ''critical'') (online_from clk i st)) \<and>
     cpu_statuses s' = cpu_statuses s @ concat (map (reading_status ''cpu'') (online_from clk i st)) \<and>
     disk_statuses s' = disk_statuses s @ concat (map (reading_status ''disk'') (online_from clk i st)) \<and>
     network_statuses s' =
       network_statuses s @ concat (map (reading_status ''network'') (online_from clk i st))"
proof (induction st arbitrary: i s)
  case Nil
  then show ?case by simp
next
  case (Cons e st)
  obtain k data where e: "e = (k, data)" by (cases e)
  from Cons.prems e obtain s1 where
    step: "latest_step (clk i) k data s = Inr s1" and
    rest: "latest_loop clk (Suc i) st s1 = Inr s'"
    by (auto split: sum.splits)
  note ih = Cons.IH [OF rest]
  show ?case
  proof (cases "list_is_stale (clk i) data")
    case True
    from step latest_step_offline [OF True, of k s] have
      s1: "s1 = s\<lparr>acc_summary := (acc_summary s)\<lparr>total_devices := total_devices (acc_summary s) + 1,
                                          offline := offline (acc_summary s) + 1\<rparr>,
           acc_devices := acc_devices s @
             [make_device k data False (snd (latest_age (clk i) data))]\<rparr>"
      by simp
    show ?thesis
      using ih True unfolding e s1 by (simp add: from_Cons device_of_simp)
  next
    case False
    note s1 = latest_step_online [OF False step]
    have s1f:
      "acc_devices s1 = acc_devices s @ [make_device k data True (snd (latest_age (clk i) data))]"
      "total_devices (acc_summary s1) = total_devices (acc_summary s) + 1"
      "online (acc_summary s1) = online (acc_summary s) + 1"
      "offline (acc_summary s1) = offline (acc_summary s)"
      "healthy (acc_summary s1) = healthy (acc_summary s) + (if has_status ''healthy'' data then 1 else 0)"
      "warning (acc_summary s1) = warning (acc_summary s) + (if has_status ''warning'' data then 1 else 0)"
      "critical (acc_summary s1) = critical (acc_summary s) + (if has_status ''critical'' data then 1 else 0)"
      "cpu_statuses s1 = cpu_statuses s @ reading_status ''cpu'' data"
      "disk_statuses s1 = disk_statuses s @ reading_status ''disk'' data"
      "network_statuses s1 = network_statuses s @ reading_status ''network'' data"
      by (simp_all add: s1 count_status_fields has_status_def)
    show ?thesis
      using ih False unfolding e by (simp add: s1f from_Cons device_of_simp)
  qed
qed

lemma init_state_fields [simp]:
  "acc_devices init_state = []" "cpu_statuses init_state = []" "disk_statuses init_state = []"
  "network_statuses init_state = []" "memory_statuses init_state = []"
  "total_devices (acc_summary init_state) = 0" "online (acc_summary init_state) = 0"
  "offline (acc_summary init_state) = 0" "healthy (acc_summary init_state) = 0"
  "warning (acc_summary init_state) = 0" "critical (acc_summary init_state) = 0"
  by (simp_all add: init_state_def)

lemma build_response_fields:
  assumes "build_response now s = Inr r"
  shows "devices r = acc_devices s" "summary r = acc_summary s"
    "status (network (system_status r)) = aggregate_status (network_statuses s)"
    "status (compute (system_status r)) = aggregate_status (cpu_statuses s)"
    "status (storage (system_status r)) = aggregate_status (disk_statuses s)"
  using assms
  by (auto simp: build_response_def Let_def split: sum.splits)

lemma dashboard_loop:
  assumes "get_latest_metrics clk st = Inr r" and "st \<noteq> []"
  obtains s where "latest_loop clk 0 st init_state = Inr s"
    and "build_response (utcnow (clk (length st))) s = Inr r"
  using assms by (auto simp: get_latest_metrics_def split: sum.splits)

lemma aggregate_status_spec: "aggregate_status S = rollup_spec S"
  by (auto simp: aggregate_status_def rollup_spec_def list_all_iff)

lemma rat_window: "((of_int x :: rat) / 1000000 > MAX_AGE_SECONDS) = (x > window_us)"
proof -
  have "((of_int x :: rat) / 1000000 > 60) = ((of_int x :: rat) > of_int 60000000)"
    by (simp add: less_divide_eq)
  also have "\<dots> = (x > 60000000)"
    by (simp only: of_int_less_iff)
  finally show ?thesis by (simp add: MAX_AGE_SECONDS_def window_us_def)
qed

lemma age_us_instant: "age_us rd p = to_us (utcnow rd) - instant_us rd p"
  by (simp add: age_us_def instant_us_def split: option.splits)

lemma list_is_stale_spec:
  "list_is_stale rd data = is_stale_spec (received_instant rd data) (to_us (utcnow rd)) window_us"
proof (cases "received_at_of data")
  case None
  then show ?thesis
    by (simp add: list_is_stale_def is_stale_spec_def received_instant_def age_seconds_def)
next
  case (Some p)
  show ?thesis
    unfolding list_is_stale_def age_seconds_def is_stale_spec_def received_instant_def Some
    by (simp only: option.map option.case rat_window age_us_instant)
qed

section \<open>Example stores\<close>

lemma valid_later_now: "valid_datetime later_now"
  by (simp add: valid_datetime_def later_now_def example_now_def days_in_month_def)

lemma fleet_store_eq:
  "fleet_store =
     [(KStr ''a'', AList.update ''received_at'' (JStr (isoformat example_now @ ''Z'')) report_a),
      (KStr ''b'', AList.update ''received_at'' (JStr (isoformat later_now @ ''Z'')) report_b)]"
proof -
  have a: "map_of report_a ''device_id'' = Some (JStr ''a'')" by (simp add: report_a_def)
  have b: "map_of report_b ''device_id'' = Some (JStr ''b'')" by (simp add: report_b_def)
  show ?thesis
    by (simp add: fleet_store_def ingest_stores [OF a] ingest_stores [OF b])
qed

lemma fleet_ages:
  "age_seconds (clock_125s i) (AList.update ''received_at'' (JStr (isoformat example_now @ ''Z'')) kvs) = Some 125"
  "age_seconds (clock_125s i) (AList.update ''received_at'' (JStr (isoformat later_now @ ''Z'')) kvs) = Some 5"
  by (simp_all only: age_seconds_stamp [OF valid_example_now] age_seconds_stamp [OF valid_later_now])
     (simp_all add: to_us_def clock_125s_def later_now_def example_now_def)

lemma str_less_irrefl [simp]: "\<not> str_less x x"
  by (induction x) auto

lemma report_lookups:
  "map_of report_a ''hostname'' = None" "map_of report_a ''platform'' = None"
  "map_of report_a ''overall_status'' = Some (JStr ''healthy'')"
  "map_of report_a ''metrics'' = Some (JObj [(''cpu'', JObj [(''status'', JStr ''warning'')])])"
  "map_of report_b ''hostname'' = None" "map_of report_b ''platform'' = None"
  "map_of report_b ''overall_status'' = Some (JStr ''critical'')"
  "map_of report_b ''metrics'' =
     Some (JObj [(''cpu'', JObj [(''status'', JStr ''healthy''), (''usage_percent'', JNum 42)])])"
  by (simp_all add: report_a_def report_b_def)

lemma fleet_dashboard_ok: "\<exists>r. get_latest_metrics clock_125s fleet_store = Inr r"
  by (simp add: fleet_store_eq get_latest_metrics_def latest_step_def latest_age_def fleet_ages
      MAX_AGE_SECONDS_def Let_def make_device_def dict_get_def update_conv' report_lookups
      collect_status_def init_state_def count_status_def build_response_def most_recent_def
      network_detail_def usage_detail_def)

section \<open>Device status, staleness, summary and rollups\<close>

lemma dashboard_devices:
  assumes "get_latest_metrics clk st = Inr r" and "i < length st"
  shows "devices r ! i = device_of clk (i, st ! i)"
proof -
  from assms(2) have ne: "st \<noteq> []" by auto
  from dashboard_loop [OF assms(1) ne] obtain s where
    l: "latest_loop clk 0 st init_state = Inr s" and
    b: "build_response (utcnow (clk (length st))) s = Inr r" by blast
  from latest_loop_inv [OF l] build_response_fields(1) [OF b]
  have "devices r = map (device_of clk) (enumerate 0 st)" by simp
  with assms(2) show ?thesis by (simp add: nth_enumerate_eq)
qed

lemma device_of_fields:
  "dev_is_online (device_of clk (i, e)) = (\<not> list_is_stale (clk i) (snd e))"
  "dev_overall_status (device_of clk (i, e)) =
     (if list_is_stale (clk i) (snd e) then JStr ''offline''
      else dict_get (snd e) ''overall_status'' (JStr ''unknown''))"
  by (cases e; simp add: device_of_simp make_device_def)+

lemma list_row_fields:
  "is_stale (list_row rd k data) = list_is_stale rd data"
  "overall_status (list_row rd k data) =
     (if list_is_stale rd data then JStr ''offline''
      else dict_get data ''overall_status'' (JStr ''unknown''))"
  by (simp_all add: list_row_def Let_def)

text \<open>
  C1 (as the code has it). For the entry at position \<open>i\<close> of the store, in the list
  and in the dashboard: the entry is classified stale by the one rule \<open>list_is_stale\<close>
  at the clock of its iteration; the device status is \<^verbatim>\<open>offline\<close> when the entry is
  stale, whatever the report says; when it is fresh the status is the report's
  \<^verbatim>\<open>overall_status\<close> as it was sent, recognised or not, and \<^verbatim>\<open>unknown\<close> only when the
  report has no such field.
\<close>

theorem entry_device_status:
  "i < length st \<Longrightarrow>
     is_stale (list_devices clk st ! i) = list_is_stale (clk i) (snd (st ! i)) \<and>
     overall_status (list_devices clk st ! i) =
       (if is_stale (list_devices clk st ! i) then JStr ''offline''
        else dict_get (snd (st ! i)) ''overall_status'' (JStr ''unknown'')) \<and>
     (get_latest_metrics clk st = Inr r \<longrightarrow>
        dev_is_online (devices r ! i) = (\<not> list_is_stale (clk i) (snd (st ! i))) \<and>
        dev_overall_status (devices r ! i) =
          (if \<not> dev_is_online (devices r ! i) then JStr ''offline''
           else dict_get (snd (st ! i)) ''overall_status'' (JStr ''unknown'')))"
  by (simp add: list_devices_nth list_row_fields dashboard_devices device_of_fields)

lemma fleet_stale:
  "list_is_stale (clock_125s i) (AList.update ''received_at'' (JStr (isoformat example_now @ ''Z'')) kvs)"
  "\<not> list_is_stale (clock_125s i) (AList.update ''received_at'' (JStr (isoformat later_now @ ''Z'')) kvs)"
  by (simp_all add: list_is_stale_def fleet_ages MAX_AGE_SECONDS_def)

theorem entry_device_status_witness:
  "\<exists>r. get_latest_metrics clock_125s fleet_store = Inr r \<and>
     is_stale (list_devices clock_125s fleet_store ! 0) \<and>
     overall_status (list_devices clock_125s fleet_store ! 0) = JStr ''offline'' \<and>
     dev_is_online (devices r ! 0) = False \<and>
     dev_overall_status (devices r ! 0) = JStr ''offline''"
proof -
  from fleet_dashboard_ok obtain r where r: "get_latest_metrics clock_125s fleet_store = Inr r" ..
  have l: "0 < length fleet_store" by (simp add: fleet_store_eq)
  have s: "list_is_stale (clock_125s 0) (snd (fleet_store ! 0))"
    by (simp add: fleet_store_eq fleet_stale)
  from entry_device_status [OF l, of clock_125s r] r s show ?thesis by auto
qed

lemma banana_store_eq:
  "banana_store =
     [(KStr ''a'', AList.update ''received_at'' (JStr (isoformat example_now @ ''Z'')) banana_report)]"
proof -
  have a: "map_of banana_report ''device_id'' = Some (JStr ''a'')" by (simp add: banana_report_def)
  show ?thesis by (simp add: banana_store_def ingest_stores [OF a])
qed

text \<open>
  C1 as stated fails: a fresh entry whose \<^verbatim>\<open>overall_status\<close> is \<^verbatim>\<open>banana\<close> is listed
  with the status \<^verbatim>\<open>banana\<close>, not \<^verbatim>\<open>unknown\<close>.
\<close>

theorem unrecognised_status_kept:
  "is_stale (list_devices clock_5s banana_store ! 0) = False \<and>
   map_of (snd (banana_store ! 0)) ''overall_status'' = Some (JStr ''banana'') \<and>
   \<not> recognised (JStr ''banana'') \<and>
   overall_status (list_devices clock_5s banana_store ! 0) = JStr ''banana'' \<and>
   device_status_spec False (snd (banana_store ! 0)) = JStr ''unknown''"
proof -
  have l: "map_of banana_report ''overall_status'' = Some (JStr ''banana'')"
    by (simp add: banana_report_def)
  have n: "list_devices clock_5s [(KStr ''a'', e)] ! 0 = list_row (clock_5s 0) (KStr ''a'') e" for e
    by (simp add: list_devices_def)
  have f: "\<not> list_is_stale (clock_5s 0)
              (AList.update ''received_at'' (JStr (isoformat example_now @ ''Z'')) banana_report)"
    by (simp add: list_is_stale_def example_age_5s MAX_AGE_SECONDS_def)
  show ?thesis
    unfolding banana_store_eq
    by (simp add: n list_row_fields f update_conv' l dict_get_def
        device_status_spec_def recognised_def)
qed

text \<open>
  C6. In a dashboard response on a non-empty store, \<^verbatim>\<open>total_devices\<close> is the number of
  entries, \<^verbatim>\<open>online\<close> the number of fresh ones, \<^verbatim>\<open>offline\<close> the number of stale ones,
  and \<^verbatim>\<open>healthy\<close>, \<^verbatim>\<open>warning\<close> and \<^verbatim>\<open>critical\<close> count the fresh entries whose
  \<^verbatim>\<open>overall_status\<close> is that value: a stale entry is counted in \<^verbatim>\<open>offline\<close> only.
\<close>

theorem summary_counts:
  "get_latest_metrics clk st = Inr r \<Longrightarrow> st \<noteq> [] \<Longrightarrow>
     total_devices (summary r) = length st \<and>
     online (summary r) = length (online_from clk 0 st) \<and>
     offline (summary r) = length (offline_from clk 0 st) \<and>
     healthy (summary r) = length (filter (has_status ''healthy'') (online_from clk 0 st)) \<and>
     warning (summary r) = length (filter (has_status ''warning'') (online_from clk 0 st)) \<and>
     critical (summary r) = length (filter (has_status ''critical'') (online_from clk 0 st))"
proof -
  assume a: "get_latest_metrics clk st = Inr r" and ne: "st \<noteq> []"
  from dashboard_loop [OF a ne] obtain s where
    l: "latest_loop clk 0 st init_state = Inr s" and
    b: "build_response (utcnow (clk (length st))) s = Inr r" by blast
  from latest_loop_inv [OF l] build_response_fields(2) [OF b]
  show ?thesis by simp
qed

text \<open>
  C2. In a dashboard response on a non-empty store, the status of \<^verbatim>\<open>network\<close>,
  \<^verbatim>\<open>compute\<close> and \<^verbatim>\<open>storage\<close> is the specification's rollup of the statuses collected
  from the \<^verbatim>\<open>network\<close>, \<^verbatim>\<open>cpu\<close> and \<^verbatim>\<open>disk\<close> readings of the fresh entries that have
  the reading (a reading without \<^verbatim>\<open>status\<close> counts as \<^verbatim>\<open>unknown\<close>); stale entries
  contribute nothing.
\<close>

theorem subsystem_rollup:
  "get_latest_metrics clk st = Inr r \<Longrightarrow> st \<noteq> [] \<Longrightarrow>
     status (network (system_status r)) = rollup_spec (fresh_statuses clk st ''network'') \<and>
     status (compute (system_status r)) = rollup_spec (fresh_statuses clk st ''cpu'') \<and>
     status (storage (system_status r)) = rollup_spec (fresh_statuses clk st ''disk'')"
proof -
  assume a: "get_latest_metrics clk st = Inr r" and ne: "st \<noteq> []"
  from dashboard_loop [OF a ne] obtain s where
    l: "latest_loop clk 0 st init_state = Inr s" and
    b: "build_response (utcnow (clk (length st))) s = Inr r" by blast
  from latest_loop_inv [OF l] build_response_fields(3-5) [OF b]
  show ?thesis by (simp add: fresh_statuses_def aggregate_status_spec)
qed

lemma fleet_online:
  "online_from clock_125s 0 fleet_store =
     [AList.update ''received_at'' (JStr (isoformat later_now @ ''Z'')) report_b]"
  "offline_from clock_125s 0 fleet_store =
     [AList.update ''received_at'' (JStr (isoformat example_now @ ''Z'')) report_a]"
  by (simp_all add: fleet_store_eq from_Cons fleet_stale)

theorem summary_counts_witness:
  "\<exists>r. get_latest_metrics clock_125s fleet_store = Inr r \<and> fleet_store \<noteq> [] \<and>
     total_devices (summary r) = 2 \<and> online (summary r) = 1 \<and> offline (summary r) = 1 \<and>
     healthy (summary r) = 0 \<and> warning (summary r) = 0 \<and> critical (summary r) = 1"
proof -
  from fleet_dashboard_ok obtain r where r: "get_latest_metrics clock_125s fleet_store = Inr r" ..
  have ne: "fleet_store \<noteq> []" by (simp add: fleet_store_eq)
  have l: "length fleet_store = 2" by (simp add: fleet_store_eq)
  from summary_counts [OF r ne] r ne show ?thesis
    by (simp add: fleet_online l has_status_def dict_get_def update_conv' report_lookups)
qed

theorem subsystem_rollup_witness:
  "\<exists>r. get_latest_metrics clock_125s fleet_store = Inr r \<and> fleet_store \<noteq> [] \<and>
     fresh_statuses clock_125s fleet_store ''cpu'' = [JStr ''healthy''] \<and>
     status (compute (system_status r)) = ''healthy'' \<and>
     status (network (system_status r)) = ''unknown'' \<and>
     status (storage (system_status r)) = ''unknown''"
proof -
  from fleet_dashboard_ok obtain r where r: "get_latest_metrics clock_125s fleet_store = Inr r" ..
  have ne: "fleet_store \<noteq> []" by (simp add: fleet_store_eq)
  from subsystem_rollup [OF r ne] r ne show ?thesis
    by (simp add: fresh_statuses_def fleet_online reading_status_def dict_get_def update_conv'
        report_lookups rollup_spec_def)
qed

lemma received_instant_stamp:
  "valid_datetime t \<Longrightarrow> map_of data ''received_at'' = Some (JStr (isoformat t @ ''Z'')) \<Longrightarrow>
     received_instant rd data = Some (to_us t)"
  by (simp add: received_instant_def received_at_of_def fromisoformat_isoformat instant_us_def)

lemma fleet_lookup:
  "map_of fleet_store (KStr ''a'') =
      Some (AList.update ''received_at'' (JStr (isoformat example_now @ ''Z'')) report_a)"
  "map_of fleet_store (KStr ''b'') =
      Some (AList.update ''received_at'' (JStr (isoformat later_now @ ''Z'')) report_b)"
  "fleet_store ! 0 =
      (KStr ''a'', AList.update ''received_at'' (JStr (isoformat example_now @ ''Z'')) report_a)"
  "fleet_store ! Suc 0 =
      (KStr ''b'', AList.update ''received_at'' (JStr (isoformat later_now @ ''Z'')) report_b)"
  "length fleet_store = 2"
  by (simp_all add: fleet_store_eq)

lemma example_instants:
  "to_us (utcnow (clock_125s i)) - to_us example_now = 125000000"
  "to_us (utcnow (clock_125s i)) - to_us later_now = 5000000"
  by (simp_all add: to_us_def clock_125s_def later_now_def example_now_def)

text \<open>
  C5. An entry is stale exactly when \<open>now - received_at\<close> exceeds the window, the
  window is 60 seconds for every device, and an entry whose \<^verbatim>\<open>received_at\<close> is missing
  or is not parsed is stale; the list, the detail and the dashboard all classify by
  this rule. The \<open>received_at\<close> of the rule is the instant the stamp denotes: for a
  stamp the receiver wrote at clock value \<open>t\<close> it is \<open>t\<close> itself, so such an entry is
  stale exactly when more than 60 seconds have passed since \<open>t\<close>.
\<close>

theorem staleness_rule:
  "list_is_stale rd data =
     is_stale_spec (received_instant rd data) (to_us (utcnow rd)) window_us \<and>
   window_us = 60 * 1000000 \<and>
   (valid_datetime t \<longrightarrow> map_of data ''received_at'' = Some (JStr (isoformat t @ ''Z'')) \<longrightarrow>
      received_instant rd data = Some (to_us t) \<and>
      list_is_stale rd data = (to_us (utcnow rd) - to_us t > window_us)) \<and>
   (map_of data ''received_at'' = None \<longrightarrow>
      received_instant rd data = None \<and> list_is_stale rd data) \<and>
   (map_of data ''received_at'' = Some (JStr s) \<longrightarrow> fromisoformat (replace_Z s) = None \<longrightarrow>
      received_instant rd data = None \<and> list_is_stale rd data) \<and>
   (received_at_of data = None \<longrightarrow> list_is_stale rd data) \<and>
   (i < length st \<longrightarrow>
      is_stale (list_devices clk st ! i) =
        is_stale_spec (received_instant (clk i) (snd (st ! i))) (to_us (utcnow (clk i))) window_us) \<and>
   (map_of st (KStr d) = Some data \<longrightarrow>
      (\<exists>body. get_device_metrics rd d st = Detail_ok body \<and>
         map_of body ''is_stale'' =
           Some (JBool (is_stale_spec (received_instant rd data) (to_us (utcnow rd)) window_us)))) \<and>
   (i < length st \<longrightarrow> get_latest_metrics clk st = Inr r \<longrightarrow>
      dev_is_online (devices r ! i) =
        (\<not> is_stale_spec (received_instant (clk i) (snd (st ! i))) (to_us (utcnow (clk i))) window_us))"
proof -
  have d: "map_of st (KStr d) = Some data \<Longrightarrow>
      \<exists>body. get_device_metrics rd d st = Detail_ok body \<and>
         map_of body ''is_stale'' = Some (JBool (list_is_stale rd data))"
    by (cases "age_seconds rd data")
       (simp_all add: get_device_metrics_def update_conv' list_is_stale_def)
  have n: "received_at_of data = None \<Longrightarrow> list_is_stale rd data"
    by (simp add: list_is_stale_def age_seconds_def)
  have w: "window_us = 60 * 1000000"
    by (simp add: window_us_def)
  have p: "received_instant rd data = Some (to_us t) \<and>
           list_is_stale rd data = (to_us (utcnow rd) - to_us t > window_us)"
    if "valid_datetime t" "map_of data ''received_at'' = Some (JStr (isoformat t @ ''Z''))"
    using received_instant_stamp [OF that, of rd]
    by (simp add: list_is_stale_spec is_stale_spec_def)
  have m: "received_instant rd data = None \<and> list_is_stale rd data"
    if "map_of data ''received_at'' = None"
    using that by (simp add: list_is_stale_spec is_stale_spec_def received_instant_def
        received_at_of_def)
  have u: "received_instant rd data = None \<and> list_is_stale rd data"
    if "map_of data ''received_at'' = Some (JStr s)" "fromisoformat (replace_Z s) = None"
    using that by (simp add: list_is_stale_spec is_stale_spec_def received_instant_def
        received_at_of_def)
  have rest: "list_is_stale rd data =
     is_stale_spec (received_instant rd data) (to_us (utcnow rd)) window_us \<and>
   (received_at_of data = None \<longrightarrow> list_is_stale rd data) \<and>
   (i < length st \<longrightarrow>
      is_stale (list_devices clk st ! i) =
        is_stale_spec (received_instant (clk i) (snd (st ! i))) (to_us (utcnow (clk i))) window_us) \<and>
   (map_of st (KStr d) = Some data \<longrightarrow>
      (\<exists>body. get_device_metrics rd d st = Detail_ok body \<and>
         map_of body ''is_stale'' =
           Some (JBool (is_stale_spec (received_instant rd data) (to_us (utcnow rd)) window_us)))) \<and>
   (i < length st \<longrightarrow> get_latest_metrics clk st = Inr r \<longrightarrow>
      dev_is_online (devices r ! i) =
        (\<not> is_stale_spec (received_instant (clk i) (snd (st ! i))) (to_us (utcnow (clk i))) window_us))"
    using d n
    by (simp add: list_is_stale_spec [symmetric] list_devices_nth list_row_fields
        dashboard_devices device_of_fields)
  from rest w p m u show ?thesis by blast
qed

theorem staleness_rule_witness:
  "\<exists>r. get_latest_metrics clock_125s fleet_store = Inr r \<and>
     valid_datetime example_now \<and> valid_datetime later_now \<and>
     to_us (utcnow (clock_125s 0)) - to_us example_now = 125000000 \<and>
     to_us (utcnow (clock_125s (Suc 0))) - to_us later_now = 5000000 \<and>
     is_stale (list_devices clock_125s fleet_store ! 0) = True \<and>
     is_stale (list_devices clock_125s fleet_store ! Suc 0) = False \<and>
     (\<exists>body. get_device_metrics (clock_125s 0) ''a'' fleet_store = Detail_ok body \<and>
        map_of body ''is_stale'' = Some (JBool True)) \<and>
     (\<exists>body. get_device_metrics (clock_125s (Suc 0)) ''b'' fleet_store = Detail_ok body \<and>
        map_of body ''is_stale'' = Some (JBool False)) \<and>
     dev_is_online (devices r ! 0) = False \<and>
     dev_is_online (devices r ! Suc 0) = True \<and>
     list_is_stale (clock_125s 0) [] = True \<and>
     fromisoformat (replace_Z ''garbage'') = None \<and>
     list_is_stale (clock_125s 0) [(''received_at'', JStr ''garbage'')] = True"
proof -
  from fleet_dashboard_ok obtain r where r: "get_latest_metrics clock_125s fleet_store = Inr r" ..
  let ?a = "AList.update ''received_at'' (JStr (isoformat example_now @ ''Z'')) report_a"
  let ?b = "AList.update ''received_at'' (JStr (isoformat later_now @ ''Z'')) report_b"
  have sa: "map_of ?a ''received_at'' = Some (JStr (isoformat example_now @ ''Z''))"
    and sb: "map_of ?b ''received_at'' = Some (JStr (isoformat later_now @ ''Z''))"
    by (simp_all add: update_conv')
  have g: "fromisoformat (replace_Z ''garbage'') = None"
    by (simp add: fromisoformat_def parse_isoformat_date_def replace_Z_def)
  note a = staleness_rule [of "clock_125s 0" ?a example_now "''garbage''" 0 fleet_store clock_125s "''a''" r]
  note b = staleness_rule [of "clock_125s (Suc 0)" ?b later_now "''garbage''" "Suc 0" fleet_store clock_125s "''b''" r]
  note e = staleness_rule [of "clock_125s 0" "[]" example_now "''garbage''" 0 fleet_store clock_125s "''a''" r]
  note u = staleness_rule [of "clock_125s 0" "[(''received_at'', JStr ''garbage'')]" example_now
      "''garbage''" 0 fleet_store clock_125s "''a''" r]
  have ia: "received_instant (clock_125s 0) ?a = Some (to_us example_now)"
    using a valid_example_now sa by blast
  have ib: "received_instant (clock_125s (Suc 0)) ?b = Some (to_us later_now)"
    using b valid_later_now sb by blast
  have spec_a: "is_stale_spec (received_instant (clock_125s 0) ?a) (to_us (utcnow (clock_125s 0))) window_us"
    and spec_b: "\<not> is_stale_spec (received_instant (clock_125s (Suc 0)) ?b) (to_us (utcnow (clock_125s (Suc 0)))) window_us"
    unfolding ia ib by (simp_all add: is_stale_spec_def example_instants window_us_def)
  have l0: "is_stale (list_devices clock_125s fleet_store ! 0) = True"
    using a spec_a by (simp add: fleet_lookup)
  have l1: "is_stale (list_devices clock_125s fleet_store ! Suc 0) = False"
    using b spec_b by (simp add: fleet_lookup)
  have d0: "\<exists>body. get_device_metrics (clock_125s 0) ''a'' fleet_store = Detail_ok body \<and>
        map_of body ''is_stale'' = Some (JBool True)"
    using a spec_a fleet_lookup(1) by simp
  have d1: "\<exists>body. get_device_metrics (clock_125s (Suc 0)) ''b'' fleet_store = Detail_ok body \<and>
        map_of body ''is_stale'' = Some (JBool False)"
    using b spec_b fleet_lookup(2) by simp
  have o0: "dev_is_online (devices r ! 0) = False"
    using a spec_a r by (simp add: fleet_lookup)
  have o1: "dev_is_online (devices r ! Suc 0) = True"
    using b spec_b r by (simp add: fleet_lookup)
  have "map_of [] ''received_at'' = (None :: json option)" by simp
  with e have "list_is_stale (clock_125s 0) []" by blast
  then have m: "list_is_stale (clock_125s 0) [] = True" by simp
  have "map_of [(''received_at'', JStr ''garbage'')] ''received_at'' = Some (JStr ''garbage'')"
    by simp
  with u g have "list_is_stale (clock_125s 0) [(''received_at'', JStr ''garbage'')]" by blast
  then have un: "list_is_stale (clock_125s 0) [(''received_at'', JStr ''garbage'')] = True"
    by simp
  from r valid_example_now valid_later_now example_instants l0 l1 d0 d1 o0 o1 m g un
  show ?thesis by blast
qed

section \<open>Stores built by ingestion\<close>

lemma set_update_cases:
  "x \<in> set (AList.update k v al) \<Longrightarrow> x = (k, v) \<or> x \<in> set al"
  by (induction al) (auto split: if_splits)

lemma ingest_store_cases:
  "snd (ingest_metrics now data st) = st \<or>
   (\<exists>k kvs. snd (ingest_metrics now data st) =
      AList.update k (AList.update ''received_at'' (JStr (isoformat now @ ''Z'')) kvs) st)"
proof (cases data)
  case (JObj kvs)
  then show ?thesis
    by (auto simp: ingest_object Let_def split: option.splits sum.splits)
qed (auto simp: ingest_metrics_def Let_def split: sum.splits bool.splits)

text \<open>
  C10. In a store built by calls of \<open>ingest_metrics\<close> alone, every entry carries a
  \<^verbatim>\<open>received_at\<close> that is the \<^verbatim>\<open>isoformat\<close> of a valid clock value followed by \<^verbatim>\<open>Z\<close>;
  it parses back to that value in UTC, so the \<^verbatim>\<open>try\<close> block of the read handlers
  computes an age for it at any clock and their \<^verbatim>\<open>except\<close> branch is not taken.
\<close>

theorem reachable_timestamps:
  "reachable st \<Longrightarrow> (k, data) \<in> set st \<Longrightarrow>
     \<exists>t. valid_datetime t \<and>
         map_of data ''received_at'' = Some (JStr (isoformat t @ ''Z'')) \<and>
         received_at_of data = Some (t, Some 0) \<and>
         (\<forall>rd. age_seconds rd data = Some (of_int (to_us (utcnow rd) - to_us t) / 1000000))"
proof (induction arbitrary: k data rule: reachable.induct)
  case start
  then show ?case by simp
next
  case (ingest st now payload)
  from ingest_store_cases [of now payload st] show ?case
  proof
    assume "snd (ingest_metrics now payload st) = st"
    with ingest.prems ingest.IH show ?thesis by simp
  next
    assume "\<exists>k kvs. snd (ingest_metrics now payload st) =
      AList.update k (AList.update ''received_at'' (JStr (isoformat now @ ''Z'')) kvs) st"
    then obtain k0 kvs where
      e: "snd (ingest_metrics now payload st) =
            AList.update k0 (AList.update ''received_at'' (JStr (isoformat now @ ''Z'')) kvs) st"
      by blast
    from ingest.prems e set_update_cases
    have "(k, data) = (k0, AList.update ''received_at'' (JStr (isoformat now @ ''Z'')) kvs) \<or>
          (k, data) \<in> set st" by metis
    then show ?thesis
    proof
      assume "(k, data) \<in> set st"
      then show ?thesis by (rule ingest.IH)
    next
      assume "(k, data) = (k0, AList.update ''received_at'' (JStr (isoformat now @ ''Z'')) kvs)"
      then have d: "data = AList.update ''received_at'' (JStr (isoformat now @ ''Z'')) kvs" by simp
      from ingest.hyps(2) show ?thesis
        unfolding d
        by (intro exI [of _ now])
           (simp add: update_conv' received_at_of_stamp age_seconds_stamp)
    qed
  qed
qed

lemma reachable_banana: "reachable banana_store"
  unfolding banana_store_def
  by (rule reachable.ingest [OF reachable.start valid_example_now])

theorem reachable_timestamps_witness:
  "reachable banana_store \<and>
   (KStr ''a'', AList.update ''received_at'' (JStr (isoformat example_now @ ''Z'')) banana_report)
      \<in> set banana_store \<and>
   (\<exists>t. valid_datetime t \<and>
      map_of (AList.update ''received_at'' (JStr (isoformat example_now @ ''Z'')) banana_report)
        ''received_at'' = Some (JStr (isoformat t @ ''Z'')) \<and>
      received_at_of (AList.update ''received_at'' (JStr (isoformat example_now @ ''Z'')) banana_report)
        = Some (t, Some 0))"
proof -
  have m: "(KStr ''a'', AList.update ''received_at'' (JStr (isoformat example_now @ ''Z'')) banana_report)
      \<in> set banana_store"
    by (simp add: banana_store_eq)
  from reachable_timestamps [OF reachable_banana m] reachable_banana m show ?thesis by blast
qed

section \<open>The lock\<close>

lemma work_locked_classify:
  "work_locked True (map (\<lambda>e. Classify (fst e)) st @ rest) = work_locked True rest"
  by (induction st) auto

lemma run_sched_append:
  "run_sched h (xs @ ys) = (case run_sched h xs of None \<Rightarrow> None | Some h' \<Rightarrow> run_sched h' ys)"
  by (induction xs arbitrary: h) (auto split: option.splits)

lemma holder_thread:
  "run_sched h0 sched = Some h \<Longrightarrow>
     (h = Some t) = holds (h0 = Some t) (steps_of t sched)"
proof (induction sched arbitrary: h0)
  case Nil
  then show ?case by (auto simp: steps_of_def)
next
  case (Cons x sched)
  obtain u e where x: "x = (u, e)" by (cases x)
  from Cons.prems x obtain h1 where
    s: "lock_step h0 (u, e) = Some h1" and r: "run_sched h1 sched = Some h"
    by (auto split: option.splits)
  note ih = Cons.IH [OF r]
  show ?case
    using s ih x
    by (cases e; cases "u = t") (auto simp: steps_of_def split: if_splits)
qed

lemma writer_outside:
  "\<not> holds False (take m ingest_events) \<Longrightarrow> m \<noteq> 1 \<and> m \<noteq> 2"
  by (auto simp: ingest_events_def)

lemma holds_no_release: "Release \<notin> set es \<Longrightarrow> h \<Longrightarrow> holds h es"
  by (induction h es rule: holds.induct) auto

lemma holds_mid:
  assumes "Release \<notin> set work" and "0 < n" and "n < length ([Acquire] @ work @ [Release])"
  shows "holds False (take n ([Acquire] @ work @ [Release]))"
proof -
  from assms(2) obtain m where n: "n = Suc m" by (cases n) auto
  with assms(3) have m: "m \<le> length work" by simp
  have "Release \<notin> set (take m work)"
    using assms(1) by (auto dest: in_set_takeD)
  then have "holds True (take m work)" by (rule holds_no_release) simp
  with n m show ?thesis by simp
qed

lemma read_events_shape:
  "es = list_devices_events st \<or> es = get_latest_metrics_events st \<Longrightarrow>
     \<exists>work. es = [Acquire] @ work @ [Release] \<and> Release \<notin> set work"
  by (auto simp: list_devices_events_def get_latest_metrics_events_def)

text \<open>
  C9 (as the code has it). The read handlers hold the lock for their whole body: every
  classification and aggregation step of \<^verbatim>\<open>list_devices\<close> and of \<^verbatim>\<open>get_latest_metrics\<close>
  runs with the lock held, and from the moment a read handler has taken the lock until
  it has released it, \<^verbatim>\<open>ingest_metrics\<close> is not between its own acquisition and
  release and cannot take the lock: the write waits for the read handler to finish.
\<close>

theorem reads_hold_lock:
  "work_locked False (list_devices_events st) \<and>
   work_locked False (get_latest_metrics_events st) \<and>
   ((es = list_devices_events st \<or> es = get_latest_metrics_events st) \<longrightarrow>
      run_sched None sched = Some h \<longrightarrow>
      steps_of Reader sched = take n es \<longrightarrow> 0 < n \<longrightarrow> n < length es \<longrightarrow>
      steps_of Writer sched = take m ingest_events \<longrightarrow>
      h = Some Reader \<and> m \<noteq> 1 \<and> m \<noteq> 2 \<and>
      run_sched None (sched @ [(Writer, Acquire)]) = None)"
proof -
  have a: "work_locked False (list_devices_events st)"
    by (simp add: list_devices_events_def work_locked_classify)
  have b: "work_locked False (get_latest_metrics_events st)"
    by (simp add: get_latest_metrics_events_def work_locked_classify)
  have c: "h = Some Reader \<and> m \<noteq> 1 \<and> m \<noteq> 2 \<and>
           run_sched None (sched @ [(Writer, Acquire)]) = None"
    if es: "es = list_devices_events st \<or> es = get_latest_metrics_events st"
      and run: "run_sched None sched = Some h"
      and st: "steps_of Reader sched = take n es"
      and n: "0 < n" "n < length es"
      and wr: "steps_of Writer sched = take m ingest_events"
  proof -
    from read_events_shape [OF es] obtain work where
      w: "es = [Acquire] @ work @ [Release]" "Release \<notin> set work" by blast
    from holds_mid [OF w(2) n(1)] n(2) w(1) have "holds False (take n es)" by simp
    with holder_thread [OF run, of Reader] st have h: "h = Some Reader" by simp
    with holder_thread [OF run, of Writer] wr have "\<not> holds False (take m ingest_events)" by simp
    then have "m \<noteq> 1 \<and> m \<noteq> 2" by (rule writer_outside)
    with h run show ?thesis by (simp add: run_sched_append)
  qed
  from a b c show ?thesis by blast
qed

theorem reads_hold_lock_witness:
  "run_sched None [(Reader, Acquire), (Reader, Classify (KStr ''a''))] = Some (Some Reader) \<and>
   steps_of Reader [(Reader, Acquire), (Reader, Classify (KStr ''a''))] =
     take 2 (list_devices_events banana_store) \<and>
   2 < length (list_devices_events banana_store) \<and>
   steps_of Writer [(Reader, Acquire), (Reader, Classify (KStr ''a''))] = take 0 ingest_events \<and>
   work_locked False (list_devices_events banana_store) \<and>
   work_locked False (get_latest_metrics_events banana_store) \<and>
   run_sched None ([(Reader, Acquire), (Reader, Classify (KStr ''a''))] @ [(Writer, Acquire)]) = None"
proof -
  have r: "run_sched None [(Reader, Acquire), (Reader, Classify (KStr ''a''))] = Some (Some Reader)"
    by simp
  have s: "steps_of Reader [(Reader, Acquire), (Reader, Classify (KStr ''a''))] =
     take 2 (list_devices_events banana_store)"
    by (simp add: steps_of_def list_devices_events_def banana_store_eq)
  have l: "2 < length (list_devices_events banana_store)"
    by (simp add: list_devices_events_def banana_store_eq)
  have w: "steps_of Writer [(Reader, Acquire), (Reader, Classify (KStr ''a''))] = take 0 ingest_events"
    by (simp add: steps_of_def)
  from reads_hold_lock [of banana_store "list_devices_events banana_store"
      "[(Reader, Acquire), (Reader, Classify (KStr ''a''))]" "Some Reader" 2 0] r s l w
  show ?thesis by simp
qed

text \<open>
  C9 as stated fails: with one entry in the store, the classification step of
  \<^verbatim>\<open>list_devices\<close> and the steps of \<^verbatim>\<open>get_latest_metrics\<close> run with the lock held, and
  while the dashboard is at its classification an ingest cannot take the lock.
\<close>

theorem work_runs_under_lock:
  "\<not> work_unlocked False (list_devices_events banana_store) \<and>
   \<not> work_unlocked False (get_latest_metrics_events banana_store) \<and>
   steps_of Reader [(Reader, Acquire), (Reader, Classify (KStr ''a''))] =
     take 2 (get_latest_metrics_events banana_store) \<and>
   run_sched None [(Reader, Acquire), (Reader, Classify (KStr ''a'')), (Writer, Acquire)] = None"
  by (simp add: list_devices_events_def get_latest_metrics_events_def banana_store_eq steps_of_def)

end
